theory Spec2Isabelle
  imports Complex_Main "HOL-Library.AList" "HOL-Library.Sublist"
begin

section \<open>Exceptions and the module namespace\<close>

text \<open>
  The model covers \<^verbatim>\<open>src/ocrd_segment/classify_address_layout.py\<close>: the functions
  \<^verbatim>\<open>make_valid\<close>, \<^verbatim>\<open>polygon_for_parent\<close> and the part of
  \<^verbatim>\<open>ClassifyAddressLayout.process\<close> that follows the detector call (lines 224-360).
  A Python exception is a value of type \<open>error\<close>; a function that can raise returns
  \<open>error + 'a\<close> with \<open>Inl\<close> for the exception.
\<close>

datatype error =
    NameError string
  | ValueError
  | ZeroDivisionError
  | IndexError
  | Exception string

text \<open>
  The names bound at module level, in source order: the imports of lines 1-46, the constant
  \<^verbatim>\<open>TOOL\<close>, the two classes and the three functions.
\<close>

definition module_globals :: "string list" where
  "module_globals =
    [''absolute_import'', ''os'', ''np'', ''Polygon'', ''asPolygon'', ''prep'',
     ''unary_union'', ''cv2'', ''Image'', ''ImageDraw'', ''model'', ''Config'', ''tf'',
     ''getLogger'', ''make_file_id'', ''assert_file_grp_cardinality'',
     ''coordinates_of_segment'', ''coordinates_for_segment'', ''polygon_from_bbox'',
     ''points_from_polygon'', ''MIMETYPE_PAGE'', ''to_xml'', ''TextRegionType'',
     ''PageType'', ''CoordsType'', ''RegionRefType'', ''RegionRefIndexedType'',
     ''OrderedGroupType'', ''OrderedGroupIndexedType'', ''UnorderedGroupType'',
     ''UnorderedGroupIndexedType'', ''TextEquivType'', ''page_from_file'', ''Processor'',
     ''OCRD_TOOL'', ''TOOL'', ''AddressConfig'', ''ClassifyAddressLayout'',
     ''polygon_for_parent'', ''make_valid'', ''page_get_reading_order'']"

text \<open>The builtins the module refers to.\<close>

definition builtins_used :: "string list" where
  "builtins_used =
    [''super'', ''hasattr'', ''Exception'', ''enumerate'', ''round'', ''list'', ''map'',
     ''tuple'', ''dict'', ''range'', ''len'', ''str'', ''int'', ''max'', ''min'', ''zip'',
     ''isinstance'']"

text \<open>
  Reading a name that is not a local variable of the running function: Python looks it up
  among the module's globals, then among the builtins, and raises \<^verbatim>\<open>NameError\<close>
  when neither has it.
\<close>

definition load_global :: "string \<Rightarrow> error + unit" where
  "load_global name =
     (if name \<in> set module_globals \<or> name \<in> set builtins_used then Inr ()
      else Inl (NameError name))"

section \<open>Detector output and the suppression pass\<close>

text \<open>
  \<^verbatim>\<open>preds\<close> as \<^verbatim>\<open>model.detect\<close> returns it: \<open>class_ids\<close>,
  \<open>scores\<close> and \<open>masks\<close>, where \<open>masks P ! i\<close> is the boolean mask
  \<^verbatim>\<open>preds['masks'][:,:,i]\<close> with its pixels in row-major order. Scores are floats that
  the code only compares, so they are reals here.
\<close>

record preds =
  class_ids :: "int list"
  scores :: "real list"
  masks :: "bool list list"

definition n_instances :: "'a preds_scheme \<Rightarrow> nat" where
  "n_instances P = length (class_ids P)"

definition wf_preds :: "'a preds_scheme \<Rightarrow> bool" where
  "wf_preds P = (length (scores P) = length (class_ids P) \<and>
                 length (masks P) = length (class_ids P))"

definition count_nonzero :: "bool list \<Rightarrow> nat" where
  "count_nonzero m = length (filter (\<lambda>b. b) m)"

text \<open>On boolean arrays numpy's \<^verbatim>\<open>*\<close> is conjunction and \<^verbatim>\<open>+\<close> is disjunction.\<close>

definition mask_mul :: "bool list \<Rightarrow> bool list \<Rightarrow> bool list" where
  "mask_mul a b = map (\<lambda>(x, y). x \<and> y) (zip a b)"

definition mask_add :: "bool list \<Rightarrow> bool list \<Rightarrow> bool list" where
  "mask_add a b = map (\<lambda>(x, y). x \<or> y) (zip a b)"

text \<open>
  Line 230: \<^verbatim>\<open>np.count_nonzero(imask * jmask) / np.count_nonzero(imask + jmask) > 0.5\<close>.
  \<^verbatim>\<open>count_nonzero\<close> returns a Python integer, so two empty masks divide by zero.
\<close>

definition overlap_test :: "'a preds_scheme \<Rightarrow> nat \<Rightarrow> nat \<Rightarrow> error + bool" where
  "overlap_test P i j =
     (let imask = masks P ! i; jmask = masks P ! j;
          inter = count_nonzero (mask_mul imask jmask);
          union = count_nonzero (mask_add imask jmask)
      in if union = 0 then Inl ZeroDivisionError
         else Inr (real inter / real union > 0.5))"

text \<open>Line 231: the index appended to \<^verbatim>\<open>worse\<close> for an overlapping pair.\<close>

definition loser :: "'a preds_scheme \<Rightarrow> nat \<Rightarrow> nat \<Rightarrow> nat" where
  "loser P i j = (if scores P ! i < scores P ! j then i else j)"

text \<open>Lines 227-231, the inner loop over \<open>j\<close>; lines 226-231, the outer loop over \<open>i\<close>.\<close>

fun suppress_inner :: "'a preds_scheme \<Rightarrow> nat \<Rightarrow> nat list \<Rightarrow> nat list \<Rightarrow> error + nat list" where
  "suppress_inner P i [] worse = Inr worse"
| "suppress_inner P i (j # js) worse =
     (case overlap_test P i j of
        Inl e \<Rightarrow> Inl e
      | Inr b \<Rightarrow> suppress_inner P i js (if b then worse @ [loser P i j] else worse))"

fun suppress_outer :: "'a preds_scheme \<Rightarrow> nat list \<Rightarrow> nat list \<Rightarrow> error + nat list" where
  "suppress_outer P [] worse = Inr worse"
| "suppress_outer P (i # is) worse =
     (case suppress_inner P i [i + 1 ..< n_instances P] worse of
        Inl e \<Rightarrow> Inl e
      | Inr worse' \<Rightarrow> suppress_outer P is worse')"

definition suppression :: "'a preds_scheme \<Rightarrow> error + nat list" where
  "suppression P = suppress_outer P [0 ..< n_instances P] []"

section \<open>Geometry: shapely as a parameter\<close>

text \<open>
  Polygons are vertex lists. The shapely geometry library (\<^verbatim>\<open>Polygon\<close>, its methods and
  \<^verbatim>\<open>unary_union\<close>) is not part of the repository: its operations are the fields of a
  record over an arbitrary type \<open>'g\<close> of geometries, and every function below takes that
  record. Of the exceptions raised inside library calls the model has the one by which
  \<^verbatim>\<open>Polygon\<close> refuses its argument (below); the others are outside the model.
\<close>

type_synonym point = "real \<times> real"
type_synonym polygon = "point list"

record 'g shapely =
  sh_Polygon :: "polygon \<Rightarrow> 'g"
  sh_exterior_coords :: "'g \<Rightarrow> polygon"
  sh_is_valid :: "'g \<Rightarrow> bool"
  sh_is_empty :: "'g \<Rightarrow> bool"
  sh_area :: "'g \<Rightarrow> real"
  sh_type :: "'g \<Rightarrow> string"
  sh_geoms :: "'g \<Rightarrow> 'g list"
  sh_minimum_clearance :: "'g \<Rightarrow> real"
  sh_convex_hull :: "'g \<Rightarrow> 'g"
  sh_simplify :: "'g \<Rightarrow> real \<Rightarrow> 'g"
  sh_buffer :: "'g \<Rightarrow> real \<Rightarrow> 'g"
  sh_intersection :: "'g \<Rightarrow> 'g \<Rightarrow> 'g"
  sh_union :: "'g \<Rightarrow> 'g \<Rightarrow> 'g"
  sh_unary_union :: "'g list \<Rightarrow> 'g"
  sh_within :: "'g \<Rightarrow> 'g \<Rightarrow> bool"
  sh_intersects :: "'g \<Rightarrow> 'g \<Rightarrow> bool"
  sh_almost_equals :: "'g \<Rightarrow> 'g \<Rightarrow> bool"
  sh_crosses :: "'g \<Rightarrow> 'g \<Rightarrow> bool"
  sh_overlaps :: "'g \<Rightarrow> 'g \<Rightarrow> bool"

text \<open>
  The functions of \<^verbatim>\<open>ocrd_utils\<close> that convert between the \<^verbatim>\<open>points\<close> attribute of a
  PAGE element (type \<open>'p\<close>), page coordinates and image coordinates; the page image and
  its transform are fixed for one page. \<^verbatim>\<open>polygon_from_points\<close> is a function of
  \<^verbatim>\<open>ocrd_utils\<close> too, but the module does not import it.
\<close>

record 'p ocrd_utils =
  coordinates_of_segment :: "'p \<Rightarrow> polygon"
  coordinates_for_segment :: "polygon \<Rightarrow> polygon"
  points_from_polygon :: "polygon \<Rightarrow> 'p"
  polygon_from_points :: "'p \<Rightarrow> polygon"

text \<open>
  \<^verbatim>\<open>Polygon(coords)\<close>: shapely raises \<^verbatim>\<open>ValueError\<close> (a linear ring must have at
  least 3 coordinate tuples) for a sequence of one or two points, and closes the ring of
  a longer sequence itself. An empty sequence is taken to give the empty polygon, as
  shapely does for an empty list.
\<close>

definition Polygon :: "'g shapely \<Rightarrow> polygon \<Rightarrow> error + 'g" where
  "Polygon G coords =
     (if length coords = 1 \<or> length coords = 2 then Inl ValueError
      else Inr (sh_Polygon G coords))"

text \<open>Python's \<^verbatim>\<open>int()\<close> on a float truncates toward zero.\<close>

definition py_int :: "real \<Rightarrow> int" where
  "py_int x = (if 0 \<le> x then \<lfloor>x\<rfloor> else \<lceil>x\<rceil>)"

text \<open>\<^verbatim>\<open>np.round\<close> rounds to the nearest integer, a half to the even neighbour.\<close>

definition np_round :: "real \<Rightarrow> real" where
  "np_round x =
     (let f = \<lfloor>x\<rfloor>; d = x - of_int f
      in if d < 1 / 2 then of_int f
         else if 1 / 2 < d then of_int (f + 1)
         else if even f then of_int f else of_int (f + 1))"

subsection \<open>\<^verbatim>\<open>make_valid\<close> (lines 417-429)\<close>

text \<open>
  The first loop, over \<^verbatim>\<open>split\<close>: \<^verbatim>\<open>coords[-split:] + coords[:-split]\<close> are the last
  \<open>split\<close> coordinates followed by the others.
\<close>

fun make_valid_rotate :: "'g shapely \<Rightarrow> nat list \<Rightarrow> 'g \<Rightarrow> error + 'g" where
  "make_valid_rotate G [] polygon = Inr polygon"
| "make_valid_rotate G (split # rest) polygon =
     (if sh_is_valid G polygon \<or> sh_is_valid G (sh_simplify G polygon (sh_area G polygon))
      then Inr polygon
      else
        let coords = sh_exterior_coords G polygon
        in case Polygon G (drop (length coords - split) coords @
                           take (length coords - split) coords) of
             Inl e \<Rightarrow> Inl e
           | Inr rotated \<Rightarrow> make_valid_rotate G rest rotated)"

text \<open>The second loop, over \<^verbatim>\<open>tolerance\<close>.\<close>

fun make_valid_simplify :: "'g shapely \<Rightarrow> nat list \<Rightarrow> 'g \<Rightarrow> 'g" where
  "make_valid_simplify G [] polygon = polygon"
| "make_valid_simplify G (tolerance # rest) polygon =
     (if sh_is_valid G polygon then polygon
      else make_valid_simplify G rest (sh_simplify G polygon (real tolerance)))"

definition make_valid :: "'g shapely \<Rightarrow> 'g \<Rightarrow> error + 'g" where
  "make_valid G polygon =
     (case make_valid_rotate G
             [1 ..< length (sh_exterior_coords G polygon) - 1] polygon of
        Inl e \<Rightarrow> Inl e
      | Inr rotated \<Rightarrow>
          Inr (make_valid_simplify G [1 ..< nat (py_int (sh_area G rotated))] rotated))"

subsection \<open>\<^verbatim>\<open>polygon_for_parent\<close> (lines 376-415)\<close>

text \<open>
  The parent is a page (with the \<^verbatim>\<open>points\<close> of its Border when it has one, and the
  image size) or a region (with the \<^verbatim>\<open>points\<close> of its Coords).
\<close>

datatype 'p parent =
    PageType (get_Border: "'p option") (get_imageWidth: int) (get_imageHeight: int)
  | RegionType (get_Coords: 'p)

text \<open>
  Lines 391-415, once both polygons are built. \<^verbatim>\<open>None\<close> is \<open>None\<close>. In line 411
  \<^verbatim>\<open>asPolygon\<close> wraps the rounded array and builds the polygon when \<^verbatim>\<open>make_valid\<close>
  first reads it, with the same \<^verbatim>\<open>ValueError\<close> for an array that is too short.
\<close>

definition clip_to_parent :: "'g shapely \<Rightarrow> 'g \<Rightarrow> 'g \<Rightarrow> error + polygon option" where
  "clip_to_parent G childp0 parentp0 =
     (case make_valid G childp0 of
        Inl e \<Rightarrow> Inl e
      | Inr childp \<Rightarrow>
          (case make_valid G parentp0 of
             Inl e \<Rightarrow> Inl e
           | Inr parentp \<Rightarrow>
               if sh_within G childp parentp
               then Inr (Some (butlast (sh_exterior_coords G childp)))
               else
                 let interp = sh_intersection G childp parentp
                 in if sh_is_empty G interp \<or> sh_area G interp = 0 then Inr None
                    else
                      let interp1 =
                            (if sh_type G interp = ''GeometryCollection''
                             then sh_unary_union G
                                    (filter (\<lambda>geom. 0 < sh_area G geom) (sh_geoms G interp))
                             else interp);
                          interp2 =
                            (if sh_type G interp1 = ''MultiPolygon''
                             then sh_convex_hull G interp1 else interp1)
                      in if sh_minimum_clearance G interp2 < 1
                         then
                           case Polygon G (map (\<lambda>(x, y). (np_round x, np_round y))
                                             (sh_exterior_coords G interp2)) of
                             Inl e \<Rightarrow> Inl e
                           | Inr rounded \<Rightarrow>
                               (case make_valid G rounded of
                                  Inl e \<Rightarrow> Inl e
                                | Inr interp3 \<Rightarrow>
                                    Inr (Some (butlast (sh_exterior_coords G interp3))))
                         else Inr (Some (butlast (sh_exterior_coords G interp2)))))"

text \<open>
  Lines 382-390, the polygon \<^verbatim>\<open>parentp\<close>. \<^verbatim>\<open>Polygon(polygon_from_points(...))\<close>
  reads the global \<^verbatim>\<open>polygon_from_points\<close> when it evaluates its argument, before
  \<^verbatim>\<open>Polygon\<close> is called.
\<close>

definition parent_polygon :: "'g shapely \<Rightarrow> 'p ocrd_utils \<Rightarrow> 'p parent \<Rightarrow> error + 'g" where
  "parent_polygon G U parent =
     (case parent of
        PageType border w h \<Rightarrow>
          (case border of
             Some pts \<Rightarrow>
               (case load_global ''polygon_from_points'' of
                  Inl e \<Rightarrow> Inl e
                | Inr _ \<Rightarrow> Polygon G (polygon_from_points U pts))
           | None \<Rightarrow>
               Polygon G [(0, 0), (0, of_int h), (of_int w, of_int h), (of_int w, 0)])
      | RegionType pts \<Rightarrow>
          (case load_global ''polygon_from_points'' of
             Inl e \<Rightarrow> Inl e
           | Inr _ \<Rightarrow> Polygon G (polygon_from_points U pts)))"

text \<open>Lines 381-415: line 381 builds the child polygon before anything else.\<close>

definition polygon_for_parent ::
    "'g shapely \<Rightarrow> 'p ocrd_utils \<Rightarrow> polygon \<Rightarrow> 'p parent \<Rightarrow> error + polygon option" where
  "polygon_for_parent G U polygon parent =
     (case Polygon G polygon of
        Inl e \<Rightarrow> Inl e
      | Inr childp \<Rightarrow>
          (case parent_polygon G U parent of
             Inl e \<Rightarrow> Inl e
           | Inr parentp \<Rightarrow> clip_to_parent G childp parentp))"

section \<open>Best scores and relabelling (lines 232-258)\<close>

text \<open>
  Indexing a Python list or numpy array of length \<open>n\<close> with an integer: a negative index
  counts from the end, and an index outside \<open>-n .. n-1\<close> raises.
\<close>

definition py_index :: "'a list \<Rightarrow> int \<Rightarrow> error + 'a" where
  "py_index xs k =
     (let n = int (length xs)
      in if 0 \<le> k \<and> k < n then Inr (xs ! nat k)
         else if - n \<le> k \<and> k < 0 then Inr (xs ! nat (n + k))
         else Inl IndexError)"

text \<open>Lines 233-242, starting from \<^verbatim>\<open>best = np.zeros(4)\<close>.\<close>

fun best_loop :: "'a preds_scheme \<Rightarrow> nat list \<Rightarrow> nat list \<Rightarrow> real list \<Rightarrow> real list" where
  "best_loop P worse [] best = best"
| "best_loop P worse (i # is) best =
     (if i \<in> set worse then best_loop P worse is best
      else
        let cat = class_ids P ! i; score = scores P ! i
        in if cat \<notin> {1, 2} then best_loop P worse is best
           else if best ! nat cat < score
                then best_loop P worse is (best[nat cat := score])
                else best_loop P worse is best)"

definition best_scores :: "'a preds_scheme \<Rightarrow> nat list \<Rightarrow> real list" where
  "best_scores P worse = best_loop P worse [0 ..< n_instances P] [0, 0, 0, 0]"

definition categories :: "string list" where
  "categories = ['''', ''address-rcpt'', ''address-sndr'', ''address-contact'']"

text \<open>
  Lines 250-258 for an instance that is not in \<^verbatim>\<open>worse\<close>: the class the instance is
  processed under and whether line 255 logged a degradation, or the exception.
\<close>

definition relabel :: "'a preds_scheme \<Rightarrow> real list \<Rightarrow> nat \<Rightarrow> error + bool \<times> int" where
  "relabel P best i =
     (let cat = class_ids P ! i; score = scores P ! i
      in if cat = 0 then Inl (Exception ''detected region for background class'')
         else case py_index best cat of
                Inl e \<Rightarrow> Inl e
              | Inr b \<Rightarrow> Inr (score < b, if score < b then 3 else cat))"

section \<open>The page: regions, lines and reading order\<close>

record 'p textline =
  line_id :: string
  line_custom :: "string option"
  line_Coords :: 'p
  line_TextEquiv :: "string list"

record 'p textregion =
  region_id :: string
  region_Coords :: 'p
  region_conf :: "real option"
  region_type :: string
  region_custom :: "string option"
  region_TextLine :: "'p textline list"
  region_TextEquiv :: "string list"

datatype log_event =
    Warning_no_sndr_rcpt
  | Debug_ignoring_worse int
  | Debug_degrading int
  | Warning_ignoring_extant
  | Info_detected string string
  | Debug_removing string string
  | Debug_stealing string
  | Debug_ignoring_crossing string string
  | Debug_ignoring_overlapping string string
  | Info_ignoring_without_address string string

text \<open>
  One page while \<^verbatim>\<open>process\<close> runs. \<open>allregions\<close> holds the region objects that
  \<^verbatim>\<open>get_AllRegions\<close> returned, an object being known by its position; \<open>attached ! k\<close>
  says whether object \<open>k\<close> is still a member of its parent's \<^verbatim>\<open>TextRegion\<close> list;
  \<open>added\<close> are the regions that \<^verbatim>\<open>page.add_TextRegion\<close> appended. \<open>ro_elems ! e\<close> is
  the \<^verbatim>\<open>regionRef\<close> of the \<open>e\<close>-th element object of the page's reading order, and
  \<open>reading_order\<close> is the dictionary from region id to element object.
\<close>

record 'p page_state =
  allregions :: "'p textregion list"
  attached :: "bool list"
  added :: "'p textregion list"
  oldregions :: "nat list"
  ro_elems :: "string list"
  reading_order :: "(string \<times> nat) list"
  logged :: "log_event list"

text \<open>
  \<^verbatim>\<open>page_get_reading_order\<close> (lines 431-450) visits every element below the top group,
  a group's children right after the group, and stores each under its \<^verbatim>\<open>regionRef\<close>;
  \<open>elems\<close> are the \<^verbatim>\<open>regionRef\<close>s in the order of that visit.
\<close>

definition page_get_reading_order :: "string list \<Rightarrow> (string \<times> nat) list" where
  "page_get_reading_order elems =
     fold (\<lambda>e ro. AList.update (elems ! e) e ro) [0 ..< length elems] []"

definition init_state :: "'p textregion list \<Rightarrow> string list \<Rightarrow> 'p page_state" where
  "init_state regions elems =
     \<lparr> allregions = regions, attached = replicate (length regions) True, added = [],
       oldregions = [], ro_elems = elems,
       reading_order = page_get_reading_order elems, logged = [] \<rparr>"

section \<open>String formatting\<close>

definition digit :: "nat \<Rightarrow> char" where
  "digit d = ''0123456789'' ! d"

fun str_nat :: "nat \<Rightarrow> string" where
  "str_nat n = (if n < 10 then [digit n] else str_nat (n div 10) @ [digit (n mod 10)])"

declare str_nat.simps [simp del]

text \<open>\<^verbatim>\<open>'%02d' % n\<close> for \<open>n \<ge> 0\<close>.\<close>

definition fmt_02d :: "nat \<Rightarrow> string" where
  "fmt_02d n = (let s = str_nat n in replicate (2 - length s) CHR ''0'' @ s)"

definition startswith :: "string \<Rightarrow> string \<Rightarrow> bool" where
  "startswith s p = (take (length p) s = p)"

fun join_newline :: "string list \<Rightarrow> string" where
  "join_newline [] = []"
| "join_newline [s] = s"
| "join_newline (s # t # rest) = s @ [CHR 0x0A] @ join_newline (t # rest)"

section \<open>Reconciliation with the existing regions (lines 306-360)\<close>

text \<open>
  The detector output together with what the mask post-processing of lines 259-289
  (numpy and OpenCV, not modelled) yields for each instance: the outer contour
  \<^verbatim>\<open>contours[0][:,0,:]\<close> in image coordinates and the odd dilation size
  \<^verbatim>\<open>scale\<close>.
\<close>

record detections = preds +
  contours :: "polygon list"
  scales :: "int list"

text \<open>
  The region under construction: the new \<^verbatim>\<open>region\<close>, its polygon
  \<^verbatim>\<open>region_poly\<close> in image coordinates, and \<^verbatim>\<open>has_address\<close>.
\<close>

record ('g, 'p) candidate =
  region :: "'p textregion"
  region_poly :: 'g
  has_address :: bool

text \<open>Line 322.\<close>

definition is_address_line :: "'p textline \<Rightarrow> bool" where
  "is_address_line line =
     (case line_custom line of
        None \<Rightarrow> False
      | Some c \<Rightarrow> c \<noteq> [] \<and> startswith c ''subtype: ADDRESS_'')"

text \<open>
  Lines 321-336, the loop over the lines of a subsumed neighbour. It returns the candidate,
  the neighbour's line objects as the loop leaves them (with rewritten ids) and the log,
  or the exception of \<^verbatim>\<open>Polygon\<close> in line 329.
\<close>

fun steal_lines ::
    "'g shapely \<Rightarrow> 'p ocrd_utils \<Rightarrow> 'p textline list \<Rightarrow> nat \<Rightarrow>
     ('g, 'p) candidate \<times> 'p textline list \<times> log_event list \<Rightarrow>
     error + ('g, 'p) candidate \<times> 'p textline list \<times> log_event list" where
  "steal_lines G U [] line_no acc = Inr acc"
| "steal_lines G U (line # rest) line_no (cand, stolen, lg) =
     (let has = (has_address cand \<or> is_address_line line);
          lg1 = lg @ [Debug_stealing (line_id line)];
          line1 = line\<lparr>line_id := region_id (region cand) @ ''_line'' @ fmt_02d line_no\<rparr>;
          region1 = (region cand)
                      \<lparr>region_TextLine := region_TextLine (region cand) @ [line1]\<rparr>
      in case Polygon G (coordinates_of_segment U (line_Coords line1)) of
           Inl e \<Rightarrow> Inl e
         | Inr line_poly \<Rightarrow>
             let cand1 =
                   (if \<not> sh_within G line_poly (region_poly cand)
                    then
                      let poly1 = sh_union G line_poly (region_poly cand);
                          poly2 = (if sh_type G poly1 = ''MultiPolygon''
                                   then sh_convex_hull G poly1 else poly1);
                          region_polygon =
                            coordinates_for_segment U (butlast (sh_exterior_coords G poly2))
                      in \<lparr> region = region1\<lparr>region_Coords :=
                                                points_from_polygon U region_polygon\<rparr>,
                           region_poly = poly2, has_address = has \<rparr>
                    else \<lparr> region = region1, region_poly = region_poly cand,
                           has_address = has \<rparr>)
             in steal_lines G U rest (line_no + 1) (cand1, stolen @ [line1], lg1))"

text \<open>Lines 337-339: the text of the lines that have a \<^verbatim>\<open>TextEquiv\<close>, joined by newlines.\<close>

definition region_text :: "'p textline list \<Rightarrow> string" where
  "region_text lines =
     join_newline (map (\<lambda>line. hd (line_TextEquiv line))
                     (filter (\<lambda>line. line_TextEquiv line \<noteq> []) lines))"

text \<open>Lines 344-348: the reading-order element of the removed neighbour.\<close>

definition retarget :: "'p page_state \<Rightarrow> string \<Rightarrow> string \<Rightarrow> 'p page_state" where
  "retarget st neighbour_id new_id =
     (case map_of (reading_order st) neighbour_id of
        None \<Rightarrow> st
      | Some roelem \<Rightarrow>
          st\<lparr> ro_elems := (ro_elems st)[roelem := new_id],
              reading_order :=
                AList.delete neighbour_id (AList.update new_id roelem (reading_order st)) \<rparr>)"

text \<open>Lines 312-316.\<close>

definition subsumes :: "'g shapely \<Rightarrow> 'g \<Rightarrow> 'g \<Rightarrow> int \<Rightarrow> bool" where
  "subsumes G neighpoly poly scale =
     (sh_within G neighpoly poly \<or>
      sh_within G neighpoly (sh_buffer G poly (of_int scale)) \<or>
      (sh_intersects G neighpoly poly \<and>
       (sh_almost_equals G neighpoly poly \<or>
        0.8 * sh_area G neighpoly < sh_area G (sh_intersection G neighpoly poly))))"

text \<open>Lines 317-348 for the neighbour at position \<open>k\<close>, once it is found subsumed.\<close>

definition remove_neighbour ::
    "'g shapely \<Rightarrow> 'p ocrd_utils \<Rightarrow> nat \<Rightarrow> 'p page_state \<times> ('g, 'p) candidate \<Rightarrow>
     error + 'p page_state \<times> ('g, 'p) candidate" where
  "remove_neighbour G U k sc =
     (case sc of (st, cand) \<Rightarrow>
        let neighbour = allregions st ! k;
            lg0 = [Debug_removing (region_id neighbour) (region_id (region cand))];
            line_no = length (region_TextLine (region cand))
        in case steal_lines G U (region_TextLine neighbour) line_no (cand, [], lg0) of
             Inl e \<Rightarrow> Inl e
           | Inr (cand1, stolen, lg1) \<Rightarrow>
               let region2 = (region cand1)
                               \<lparr>region_TextEquiv :=
                                  [region_text (region_TextLine (region cand1))]\<rparr>;
                   st1 = st\<lparr> allregions :=
                              (allregions st)[k := neighbour\<lparr>region_TextLine := stolen\<rparr>],
                            attached := (attached st)[k := False],
                            oldregions := oldregions st @ [k],
                            logged := logged st @ lg1 \<rparr>
               in Inr (retarget st1 (region_id neighbour) (region_id region2),
                       cand1\<lparr>region := region2\<rparr>))"

text \<open>Lines 309-354, the loop over \<^verbatim>\<open>zip(allregions, allpolys)\<close> by position.\<close>

fun reconcile ::
    "'g shapely \<Rightarrow> 'p ocrd_utils \<Rightarrow> 'g list \<Rightarrow> int \<Rightarrow> nat list \<Rightarrow>
     'p page_state \<times> ('g, 'p) candidate \<Rightarrow>
     error + 'p page_state \<times> ('g, 'p) candidate" where
  "reconcile G U allpolys scale [] sc = Inr sc"
| "reconcile G U allpolys scale (k # ks) (st, cand) =
     (if k \<in> set (oldregions st) then reconcile G U allpolys scale ks (st, cand)
      else
        let neighbour = allregions st ! k; neighpoly = allpolys ! k
        in if subsumes G neighpoly (region_poly cand) scale
           then case remove_neighbour G U k (st, cand) of
                  Inl e \<Rightarrow> Inl e
                | Inr sc1 \<Rightarrow> reconcile G U allpolys scale ks sc1
           else if sh_crosses G neighpoly (region_poly cand)
           then reconcile G U allpolys scale ks
                  (st\<lparr>logged := logged st @ [Debug_ignoring_crossing (region_id neighbour)
                                           (region_id (region cand))]\<rparr>, cand)
           else if sh_overlaps G neighpoly (region_poly cand)
           then reconcile G U allpolys scale ks
                  (st\<lparr>logged := logged st @ [Debug_ignoring_overlapping (region_id neighbour)
                                           (region_id (region cand))]\<rparr>, cand)
           else reconcile G U allpolys scale ks (st, cand))"

section \<open>The loop over the instances (lines 245-360)\<close>

text \<open>Line 299.\<close>

definition new_region_id :: "nat \<Rightarrow> string" where
  "new_region_id i = ''addressregion'' @ fmt_02d (i + 1)"

text \<open>
  Lines 297-360 for instance \<open>i\<close>, once its polygon is clipped: the new region, the
  reconciliation, and the gate of lines 356-360.
\<close>

definition annotate ::
    "'g shapely \<Rightarrow> 'p ocrd_utils \<Rightarrow> 'g list \<Rightarrow> detections \<Rightarrow> nat \<Rightarrow> string \<Rightarrow> polygon \<Rightarrow>
     'p page_state \<Rightarrow> error + 'p page_state" where
  "annotate G U allpolys D i name region_polygon st =
     (let new = \<lparr> region_id = new_region_id i,
                  region_Coords = points_from_polygon U region_polygon,
                  region_conf = Some (scores D ! i),
                  region_type = ''other'',
                  region_custom = Some (''subtype:'' @ name),
                  region_TextLine = [],
                  region_TextEquiv = [] \<rparr>;
          st1 = st\<lparr>logged := logged st @ [Info_detected name (new_region_id i)]\<rparr>
      in case Polygon G (coordinates_of_segment U (region_Coords new)) of
           Inl e \<Rightarrow> Inl e
         | Inr poly \<Rightarrow>
             (case reconcile G U allpolys (scales D ! i) [0 ..< length (allregions st1)]
                     (st1, \<lparr> region = new, region_poly = poly, has_address = False \<rparr>) of
                Inl e \<Rightarrow> Inl e
              | Inr (st2, cand2) \<Rightarrow>
                  Inr (if has_address cand2 then st2\<lparr>added := added st2 @ [region cand2]\<rparr>
                       else st2\<lparr>logged := logged st2 @
                                   [Info_ignoring_without_address name (new_region_id i)]\<rparr>)))"

text \<open>
  Lines 246-360, one pass of the loop body. In line 295 \<^verbatim>\<open>category\<close> is not a local
  variable of \<^verbatim>\<open>process\<close>, so it is read as a global.
\<close>

definition process_instance ::
    "'g shapely \<Rightarrow> 'p ocrd_utils \<Rightarrow> 'p parent \<Rightarrow> 'g list \<Rightarrow> detections \<Rightarrow> nat list \<Rightarrow>
     real list \<Rightarrow> nat \<Rightarrow> 'p page_state \<Rightarrow> error + 'p page_state" where
  "process_instance G U page allpolys D worse best i st =
     (if i \<in> set worse
      then Inr (st\<lparr>logged := logged st @ [Debug_ignoring_worse (class_ids D ! i)]\<rparr>)
      else
        case relabel D best i of
          Inl e \<Rightarrow> Inl e
        | Inr (degraded, cat) \<Rightarrow>
            let st1 = (if degraded
                       then st\<lparr>logged := logged st @ [Debug_degrading (class_ids D ! i)]\<rparr>
                       else st)
            in case py_index categories cat of
                 Inl e \<Rightarrow> Inl e
               | Inr name \<Rightarrow>
                   (case polygon_for_parent G U
                           (coordinates_for_segment U (contours D ! i)) page of
                      Inl e \<Rightarrow> Inl e
                    | Inr None \<Rightarrow>
                        (case load_global ''category'' of
                           Inl e \<Rightarrow> Inl e
                         | Inr _ \<Rightarrow> Inr (st1\<lparr>logged := logged st1 @ [Warning_ignoring_extant]\<rparr>))
                    | Inr (Some region_polygon) \<Rightarrow>
                        annotate G U allpolys D i name region_polygon st1))"

fun process_instances ::
    "'g shapely \<Rightarrow> 'p ocrd_utils \<Rightarrow> 'p parent \<Rightarrow> 'g list \<Rightarrow> detections \<Rightarrow> nat list \<Rightarrow>
     real list \<Rightarrow> nat list \<Rightarrow> 'p page_state \<Rightarrow> error + 'p page_state" where
  "process_instances G U page allpolys D worse best [] st = Inr st"
| "process_instances G U page allpolys D worse best (i # is) st =
     (case process_instance G U page allpolys D worse best i st of
        Inl e \<Rightarrow> Inl e
      | Inr st1 \<Rightarrow> process_instances G U page allpolys D worse best is st1)"

text \<open>Lines 203-204: the polygons of the regions, built one after the other.\<close>

fun allpolys_of :: "'g shapely \<Rightarrow> 'p ocrd_utils \<Rightarrow> 'p textregion list \<Rightarrow> error + 'g list" where
  "allpolys_of G U [] = Inr []"
| "allpolys_of G U (r # rs) =
     (case Polygon G (coordinates_of_segment U (region_Coords r)) of
        Inl e \<Rightarrow> Inl e
      | Inr poly \<Rightarrow>
          (case allpolys_of G U rs of
             Inl e \<Rightarrow> Inl e
           | Inr polys \<Rightarrow> Inr (poly # polys)))"

text \<open>
  Lines 192-360 for one page: the reading-order dictionary, \<^verbatim>\<open>allpolys\<close>, the
  suppression pass, the best scores and the loop over the instances.
\<close>

definition process ::
    "'g shapely \<Rightarrow> 'p ocrd_utils \<Rightarrow> 'p parent \<Rightarrow> 'p textregion list \<Rightarrow> string list \<Rightarrow>
     detections \<Rightarrow> error + 'p page_state" where
  "process G U page regions elems D =
     (let st0 = init_state regions elems
      in case allpolys_of G U regions of
           Inl e \<Rightarrow> Inl e
         | Inr allpolys \<Rightarrow>
             (case suppression D of
                Inl e \<Rightarrow> Inl e
              | Inr worse \<Rightarrow>
                  let best = best_scores D worse;
                      st1 = (if \<not> list_ex (\<lambda>b. b \<noteq> 0) best
                             then st0\<lparr>logged := logged st0 @ [Warning_no_sndr_rcpt]\<rparr>
                             else st0)
                  in process_instances G U page allpolys D worse best
                       [0 ..< n_instances D] st1))"

section \<open>A geometry of axis-parallel rectangles, for the examples\<close>

text \<open>
  The examples below run the model on rectangles with sides parallel to the axes. A
  geometry is its closed ring of vertices; the operations compute with the bounding box,
  which is the rectangle itself, so that containment, intersection, area and clearance are
  the geometric ones for such rectangles. Two polygons never cross (that relation is
  between geometries of different dimension).
\<close>

definition close_ring :: "polygon \<Rightarrow> polygon" where
  "close_ring ps = (if ps = [] \<or> hd ps = last ps then ps else ps @ [hd ps])"

definition xmin :: "polygon \<Rightarrow> real" where
  "xmin ps = fold min (map fst ps) (fst (hd ps))"

definition xmax :: "polygon \<Rightarrow> real" where
  "xmax ps = fold max (map fst ps) (fst (hd ps))"

definition ymin :: "polygon \<Rightarrow> real" where
  "ymin ps = fold min (map snd ps) (snd (hd ps))"

definition ymax :: "polygon \<Rightarrow> real" where
  "ymax ps = fold max (map snd ps) (snd (hd ps))"

definition box_ring :: "real \<Rightarrow> real \<Rightarrow> real \<Rightarrow> real \<Rightarrow> polygon" where
  "box_ring x0 y0 x1 y1 = [(x0, y0), (x0, y1), (x1, y1), (x1, y0), (x0, y0)]"

definition box_area :: "polygon \<Rightarrow> real" where
  "box_area ps = (if ps = [] then 0 else (xmax ps - xmin ps) * (ymax ps - ymin ps))"

definition box_within :: "polygon \<Rightarrow> polygon \<Rightarrow> bool" where
  "box_within a b =
     (a \<noteq> [] \<and> b \<noteq> [] \<and> xmin b \<le> xmin a \<and> xmax a \<le> xmax b \<and>
      ymin b \<le> ymin a \<and> ymax a \<le> ymax b)"

definition box_intersection :: "polygon \<Rightarrow> polygon \<Rightarrow> polygon" where
  "box_intersection a b =
     (if a = [] \<or> b = [] then []
      else
        let x0 = max (xmin a) (xmin b); y0 = max (ymin a) (ymin b);
            x1 = min (xmax a) (xmax b); y1 = min (ymax a) (ymax b)
        in if x1 < x0 \<or> y1 < y0 then [] else box_ring x0 y0 x1 y1)"

definition box_hull :: "polygon \<Rightarrow> polygon \<Rightarrow> polygon" where
  "box_hull a b =
     (if a = [] then b else if b = [] then a
      else box_ring (min (xmin a) (xmin b)) (min (ymin a) (ymin b))
                    (max (xmax a) (xmax b)) (max (ymax a) (ymax b)))"

definition box_shapely :: "polygon shapely" where
  "box_shapely =
     \<lparr> sh_Polygon = close_ring,
       sh_exterior_coords = (\<lambda>g. g),
       sh_is_valid = (\<lambda>g. 0 < box_area g),
       sh_is_empty = (\<lambda>g. g = []),
       sh_area = box_area,
       sh_type = (\<lambda>g. ''Polygon''),
       sh_geoms = (\<lambda>g. [g]),
       sh_minimum_clearance = (\<lambda>g. min (xmax g - xmin g) (ymax g - ymin g)),
       sh_convex_hull = (\<lambda>g. g),
       sh_simplify = (\<lambda>g tolerance. g),
       sh_buffer =
         (\<lambda>g d. if g = [] then []
                else box_ring (xmin g - d) (ymin g - d) (xmax g + d) (ymax g + d)),
       sh_intersection = box_intersection,
       sh_union = box_hull,
       sh_unary_union = (\<lambda>gs. fold box_hull gs []),
       sh_within = box_within,
       sh_intersects = (\<lambda>a b. box_intersection a b \<noteq> []),
       sh_almost_equals = (\<lambda>a b. a = b),
       sh_crosses = (\<lambda>a b. False),
       sh_overlaps =
         (\<lambda>a b. 0 < box_area (box_intersection a b) \<and> \<not> box_within a b \<and>
                 \<not> box_within b a) \<rparr>"

text \<open>
  A page whose image is the page itself, with the \<^verbatim>\<open>points\<close> of an element kept as
  the vertex list: every conversion is the identity.
\<close>

definition plain_utils :: "polygon ocrd_utils" where
  "plain_utils =
     \<lparr> coordinates_of_segment = (\<lambda>ps. ps),
       coordinates_for_segment = (\<lambda>ps. ps),
       points_from_polygon = (\<lambda>ps. ps),
       polygon_from_points = (\<lambda>ps. ps) \<rparr>"

definition square :: "real \<Rightarrow> real \<Rightarrow> real \<Rightarrow> real \<Rightarrow> polygon" where
  "square x0 y0 x1 y1 = [(x0, y0), (x0, y1), (x1, y1), (x1, y0)]"

definition plain_line :: "string \<Rightarrow> string option \<Rightarrow> polygon \<Rightarrow> string \<Rightarrow> polygon textline" where
  "plain_line i c ps t =
     \<lparr> line_id = i, line_custom = c, line_Coords = ps, line_TextEquiv = [t] \<rparr>"

definition plain_region :: "string \<Rightarrow> polygon \<Rightarrow> polygon textline list \<Rightarrow> polygon textregion" where
  "plain_region i ps ls =
     \<lparr> region_id = i, region_Coords = ps, region_conf = None, region_type = ''paragraph'',
       region_custom = None, region_TextLine = ls, region_TextEquiv = [] \<rparr>"

section \<open>Example inputs\<close>



section \<open>The page maximum of a category, in the words of the specification\<close>



section \<open>Example pages\<close>

text \<open>
  A page of 100 by 100 pixels without Border. \<open>plain_page\<close> has one paragraph \<open>r1\<close>
  with one line that carries no address annotation; the reading order lists \<open>r1\<close>.
\<close>

definition plain_page :: "polygon textregion list" where
  "plain_page =
     [plain_region ''r1'' (square 10 10 50 30)
        [plain_line ''r1_l1'' None (square 12 12 48 20) ''Hello'']]"

text \<open>One recipient detection whose contour contains \<open>r1\<close>.\<close>

definition ghost :: detections where
  "ghost = \<lparr> class_ids = [1], scores = [0.9], masks = [[True]],
             contours = [square 5 5 60 40], scales = [1] \<rparr>"

text \<open>One recipient detection whose polygon lies outside the page.\<close>

definition outside :: detections where
  "outside = \<lparr> class_ids = [1], scores = [0.9], masks = [[True]],
               contours = [square 200 200 300 300], scales = [1] \<rparr>"

text \<open>
  \<open>address_page\<close> has two paragraphs, \<open>r1\<close> and \<open>r2\<close>, each with one address line;
  the reading order lists both.
\<close>

definition address_page :: "polygon textregion list" where
  "address_page =
     [plain_region ''r1'' (square 10 10 50 30)
        [plain_line ''r1_l1'' (Some ''subtype: ADDRESS_ZIP'') (square 12 12 48 20) ''12345''],
      plain_region ''r2'' (square 10 32 50 38)
        [plain_line ''r2_l1'' (Some ''subtype: ADDRESS_NAME'') (square 12 33 48 37)
           ''Hello'']]"

text \<open>
  Three detections: the first two share one mask and a contour around \<open>r1\<close>, the
  second scoring lower; the third is a sender detection with a disjoint mask and a contour
  around \<open>r2\<close>.
\<close>

definition triple :: detections where
  "triple =
     \<lparr> class_ids = [1, 1, 2], scores = [0.9, 0.6, 0.8],
       masks = [[True, False], [True, False], [False, True]],
       contours = [square 5 5 60 31, square 5 5 60 31, square 5 31 60 40],
       scales = [1, 1, 1] \<rparr>"

section \<open>Reading a decimal number\<close>

text \<open>The number that a string of decimal digits denotes, leading zeros allowed.\<close>

definition digit_value :: "char \<Rightarrow> nat" where
  "digit_value c = length (takeWhile (\<lambda>d. d \<noteq> c) ''0123456789'')"

definition decimal_value :: "string \<Rightarrow> nat" where
  "decimal_value s = fold (\<lambda>c n. 10 * n + digit_value c) s 0"

text \<open>
  The page after the first instance of \<open>triple\<close> on \<open>address_page\<close>: \<open>r1\<close> is detached
  and its line renamed, the new region is added and takes the place of \<open>r1\<close> in the
  reading order.
\<close>

definition triple_state0 :: "polygon page_state" where
  "triple_state0 =
     \<lparr> allregions =
         [plain_region ''r1'' (square 10 10 50 30)
            [plain_line ''addressregion01_line00'' (Some ''subtype: ADDRESS_ZIP'')
               (square 12 12 48 20) ''12345''],
          plain_region ''r2'' (square 10 32 50 38)
            [plain_line ''r2_l1'' (Some ''subtype: ADDRESS_NAME'') (square 12 33 48 37)
               ''Hello'']],
       attached = [False, True],
       added =
         [\<lparr> region_id = ''addressregion01'', region_Coords = square 5 5 60 31,
            region_conf = Some 0.9, region_type = ''other'',
            region_custom = Some ''subtype:address-rcpt'',
            region_TextLine =
              [plain_line ''addressregion01_line00'' (Some ''subtype: ADDRESS_ZIP'')
                 (square 12 12 48 20) ''12345''],
            region_TextEquiv = [''12345''] \<rparr>],
       oldregions = [0], ro_elems = [''addressregion01'', ''r2''],
       reading_order = [(''r2'', 1), (''addressregion01'', 0)],
       logged = [Info_detected ''address-rcpt'' ''addressregion01'',
                 Debug_removing ''r1'' ''addressregion01'', Debug_stealing ''r1_l1''] \<rparr>"

text \<open>The page after the second instance, which is suppressed: only the log grows.\<close>

definition triple_state1 :: "polygon page_state" where
  "triple_state1 = triple_state0\<lparr>logged := logged triple_state0 @ [Debug_ignoring_worse 1]\<rparr>"

section \<open>The reading order: dictionary and element objects\<close>

text \<open>
  The dictionary \<^verbatim>\<open>reading_order\<close> and the element objects agree when the dictionary
  has one entry for an id and each entry \<open>(id, e)\<close> names an element \<open>e\<close> of the page
  whose \<^verbatim>\<open>regionRef\<close> is \<open>id\<close>.
\<close>

definition ro_consistent :: "'p page_state \<Rightarrow> bool" where
  "ro_consistent st =
     (distinct (map fst (reading_order st)) \<and>
      list_all (\<lambda>(rid, e). e < length (ro_elems st) \<and> ro_elems st ! e = rid)
        (reading_order st))"

text \<open>
  The candidate that line 297-306 build for the detection of \<open>ghost\<close>, before the loop
  over the neighbours.
\<close>

definition ghost_candidate :: "(polygon, polygon) candidate" where
  "ghost_candidate =
     \<lparr> region = \<lparr> region_id = ''addressregion01'', region_Coords = square 5 5 60 40,
                  region_conf = Some 0.9, region_type = ''other'',
                  region_custom = Some ''subtype:address-rcpt'',
                  region_TextLine = [], region_TextEquiv = [] \<rparr>,
       region_poly = box_ring 5 5 60 40, has_address = False \<rparr>"

section \<open>Name lookup and the \<^verbatim>\<open>Polygon\<close> constructor\<close>

lemma load_global_polygon_from_points:
  "load_global ''polygon_from_points'' = Inl (NameError ''polygon_from_points'')"
  by (simp add: load_global_def module_globals_def builtins_used_def)

lemma load_global_category:
  "load_global ''category'' = Inl (NameError ''category'')"
  by (simp add: load_global_def module_globals_def builtins_used_def)

lemma Polygon_accepts: "3 \<le> length coords \<Longrightarrow> Polygon G coords = Inr (sh_Polygon G coords)"
  by (simp add: Polygon_def)

lemma Polygon_refuses:
  "length coords = 1 \<or> length coords = 2 \<Longrightarrow> Polygon G coords = Inl ValueError"
  by (simp add: Polygon_def)

lemma Polygon_Inl: "Polygon G coords = Inl e \<Longrightarrow> e = ValueError"
  by (simp add: Polygon_def split: if_splits)

lemma parent_polygon_no_Border:
  "parent_polygon G U (PageType None w h) =
     Inr (sh_Polygon G [(0, 0), (0, of_int h), (of_int w, of_int h), (of_int w, 0)])"
  by (simp add: parent_polygon_def Polygon_def)

lemma parent_polygon_NameError:
  "parent_polygon G U (PageType (Some border) w h) = Inl (NameError ''polygon_from_points'')"
  "parent_polygon G U (RegionType coords) = Inl (NameError ''polygon_from_points'')"
  by (simp_all add: parent_polygon_def load_global_polygon_from_points)

lemma polygon_for_parent_no_Border:
  "3 \<le> length polygon \<Longrightarrow>
   polygon_for_parent G U polygon (PageType None w h) =
     clip_to_parent G (sh_Polygon G polygon)
       (sh_Polygon G [(0, 0), (0, of_int h), (of_int w, of_int h), (of_int w, 0)])"
  by (simp add: polygon_for_parent_def parent_polygon_no_Border Polygon_accepts)

text \<open>
  Claim C10, as amended. For a child polygon of at least three points, which
  \<^verbatim>\<open>Polygon\<close> accepts in line 381, a page with a Border and a parent that is a region make
  \<^verbatim>\<open>polygon_for_parent\<close> raise \<^verbatim>\<open>NameError\<close> for \<^verbatim>\<open>polygon_from_points\<close>, a name
  the module neither imports nor defines, whatever the geometry library computes. For a
  child of one or two points line 381 raises \<^verbatim>\<open>ValueError\<close> before that name is read.
  Either way no clipping result is returned on these two branches.
\<close>

theorem polygon_for_parent_NameError:
  "(3 \<le> length polygon \<longrightarrow>
      polygon_for_parent G U polygon (PageType (Some border) w h) =
        Inl (NameError ''polygon_from_points'') \<and>
      polygon_for_parent G U polygon (RegionType coords) =
        Inl (NameError ''polygon_from_points'')) \<and>
   (length polygon = 1 \<or> length polygon = 2 \<longrightarrow>
      polygon_for_parent G U polygon (PageType (Some border) w h) = Inl ValueError \<and>
      polygon_for_parent G U polygon (RegionType coords) = Inl ValueError) \<and>
   (\<exists>e. polygon_for_parent G U polygon (PageType (Some border) w h) = Inl e) \<and>
   (\<exists>e. polygon_for_parent G U polygon (RegionType coords) = Inl e)"
  by (cases "Polygon G polygon")
     (auto simp: polygon_for_parent_def parent_polygon_NameError Polygon_def)

theorem polygon_for_parent_NameError_witness:
  "3 \<le> length (square 10 10 50 30) \<and>
   polygon_for_parent box_shapely plain_utils (square 10 10 50 30)
     (PageType (Some (square 0 0 100 100)) 100 100) = Inl (NameError ''polygon_from_points'') \<and>
   length [(1, 1) :: point] = 1 \<and>
   polygon_for_parent box_shapely plain_utils [(1, 1)] (RegionType (square 0 0 100 100)) =
     Inl ValueError"
proof -
  have l: "3 \<le> length (square 10 10 50 30)" by (simp add: square_def)
  have s: "length [(1, 1) :: point] = 1" by simp
  from polygon_for_parent_NameError[of "square 10 10 50 30" box_shapely plain_utils
         "square 0 0 100 100" 100 100 "square 0 0 100 100"]
       polygon_for_parent_NameError[of "[(1, 1)]" box_shapely plain_utils
         "square 0 0 100 100" 100 100 "square 0 0 100 100"] l s
  show ?thesis by simp
qed

text \<open>
  The claim as stated fails: a child of two points on a page with a Border raises
  \<^verbatim>\<open>ValueError\<close>, not \<^verbatim>\<open>NameError\<close>.
\<close>

theorem short_child_raises_ValueError_counterexample:
  "polygon_for_parent box_shapely plain_utils [(1, 1), (5, 5)]
     (PageType (Some (square 0 0 100 100)) 100 100) = Inl ValueError \<and>
   Inl ValueError \<noteq>
     (Inl (NameError ''polygon_from_points'') :: error + polygon option)"
  by (simp add: polygon_for_parent_def Polygon_def)

section \<open>The suppression pass\<close>


lemma overlap_test_Inl: "overlap_test P i j = Inl e \<Longrightarrow> e = ZeroDivisionError"
  by (simp add: overlap_test_def Let_def split: if_splits)


lemma suppress_inner_Inr:
  "suppress_inner P i js w = Inr w' \<Longrightarrow>
     w' = w @ map (loser P i) (filter (\<lambda>j. overlap_test P i j = Inr True) js)"
proof (induction js arbitrary: w)
  case Nil
  then show ?case by simp
next
  case (Cons j js)
  then obtain b where b: "overlap_test P i j = Inr b"
    by (cases "overlap_test P i j") auto
  show ?case
  proof (cases b)
    case True
    with Cons.prems b have "suppress_inner P i js (w @ [loser P i j]) = Inr w'" by simp
    from Cons.IH[OF this] b True show ?thesis by simp
  next
    case False
    with Cons.prems b have "suppress_inner P i js w = Inr w'" by simp
    from Cons.IH[OF this] b False show ?thesis by simp
  qed
qed

lemma suppress_inner_total:
  "suppress_inner P i js w =
     (if list_ex (\<lambda>j. overlap_test P i j = Inl ZeroDivisionError) js
      then Inl ZeroDivisionError
      else Inr (w @ map (loser P i) (filter (\<lambda>j. overlap_test P i j = Inr True) js)))"
proof (induction js arbitrary: w)
  case Nil
  then show ?case by simp
next
  case (Cons j js)
  show ?case
  proof (cases "overlap_test P i j")
    case (Inl e)
    with overlap_test_Inl[OF Inl] show ?thesis by simp
  next
    case (Inr b)
    with Cons.IH show ?thesis by (cases b) simp_all
  qed
qed

lemma suppress_outer_total:
  "suppress_outer P is w =
     (if list_ex (\<lambda>i. list_ex (\<lambda>j. overlap_test P i j = Inl ZeroDivisionError)
                         [i + 1 ..< n_instances P]) is
      then Inl ZeroDivisionError
      else Inr (w @ concat (map (\<lambda>i. map (loser P i)
                                        (filter (\<lambda>j. overlap_test P i j = Inr True)
                                           [i + 1 ..< n_instances P])) is)))"
proof (induction "is" arbitrary: w)
  case Nil
  then show ?case by simp
next
  case (Cons i "is")
  show ?case by (simp add: suppress_inner_total Cons.IH)
qed

lemma suppression_total:
  "suppression P =
     (if \<exists>i j. i < j \<and> j < n_instances P \<and> overlap_test P i j = Inl ZeroDivisionError
      then Inl ZeroDivisionError
      else Inr (concat (map (\<lambda>i. map (loser P i)
                                   (filter (\<lambda>j. overlap_test P i j = Inr True)
                                      [i + 1 ..< n_instances P])) [0 ..< n_instances P])))"
proof -
  have "list_ex (\<lambda>i. list_ex (\<lambda>j. overlap_test P i j = Inl ZeroDivisionError)
                         [i + 1 ..< n_instances P]) [0 ..< n_instances P] =
        (\<exists>i j. i < j \<and> j < n_instances P \<and> overlap_test P i j = Inl ZeroDivisionError)"
    (is "?A = ?B")
  proof
    assume ?A
    then obtain i j where "Suc i \<le> j" "j < n_instances P"
      "overlap_test P i j = Inl ZeroDivisionError"
      by (auto simp: list_ex_iff)
    then have "i < j \<and> j < n_instances P \<and> overlap_test P i j = Inl ZeroDivisionError"
      by simp
    then show ?B by blast
  next
    assume ?B
    then obtain i j where ij: "i < j" "j < n_instances P"
      "overlap_test P i j = Inl ZeroDivisionError" by blast
    then have "i \<in> set [0 ..< n_instances P]" "j \<in> set [i + 1 ..< n_instances P]" by auto
    with ij(3) show ?A unfolding list_ex_iff by blast
  qed
  then show ?thesis by (simp only: suppression_def suppress_outer_total append_Nil)
qed

lemma suppression_Inr:
  "suppression P = Inr worse \<Longrightarrow>
     worse = concat (map (\<lambda>i. map (loser P i)
                            (filter (\<lambda>j. overlap_test P i j = Inr True)
                               [i + 1 ..< n_instances P])) [0 ..< n_instances P])"
  by (simp add: suppression_total split: if_splits)






section \<open>Evaluating the model on rectangles\<close>

lemma make_valid_rotate_valid: "sh_is_valid G p \<Longrightarrow> make_valid_rotate G xs p = Inr p"
  by (cases xs) simp_all

lemma make_valid_simplify_valid: "sh_is_valid G p \<Longrightarrow> make_valid_simplify G xs p = p"
  by (cases xs) simp_all

lemma make_valid_idle: "sh_is_valid G p \<Longrightarrow> make_valid G p = Inr p"
  by (simp add: make_valid_def make_valid_rotate_valid make_valid_simplify_valid)

lemma Polygon_square: "Polygon G (square x0 y0 x1 y1) = Inr (sh_Polygon G (square x0 y0 x1 y1))"
  by (simp add: Polygon_def square_def)

lemma box_ring_bounds:
  "x0 \<le> x1 \<Longrightarrow> y0 \<le> y1 \<Longrightarrow>
     xmin (box_ring x0 y0 x1 y1) = x0 \<and> xmax (box_ring x0 y0 x1 y1) = x1 \<and>
     ymin (box_ring x0 y0 x1 y1) = y0 \<and> ymax (box_ring x0 y0 x1 y1) = y1"
  by (simp add: xmin_def xmax_def ymin_def ymax_def box_ring_def)

lemma close_ring_square:
  "x0 \<noteq> x1 \<Longrightarrow> close_ring (square x0 y0 x1 y1) = box_ring x0 y0 x1 y1"
  by (simp add: close_ring_def square_def box_ring_def)

lemma butlast_box_ring: "butlast (box_ring x0 y0 x1 y1) = square x0 y0 x1 y1"
  by (simp add: square_def box_ring_def)

lemma box_ring_nonempty: "box_ring x0 y0 x1 y1 \<noteq> []"
  by (simp add: box_ring_def)

lemma box_area_ring: "x0 \<le> x1 \<Longrightarrow> y0 \<le> y1 \<Longrightarrow> box_area (box_ring x0 y0 x1 y1) = (x1 - x0) * (y1 - y0)"
  by (simp add: box_area_def box_ring_bounds box_ring_nonempty)

lemma box_area_empty: "box_area [] = 0"
  by (simp add: box_area_def)

lemma box_within_ring:
  "x0 \<le> x1 \<Longrightarrow> y0 \<le> y1 \<Longrightarrow> u0 \<le> u1 \<Longrightarrow> v0 \<le> v1 \<Longrightarrow>
   box_within (box_ring x0 y0 x1 y1) (box_ring u0 v0 u1 v1) =
     (u0 \<le> x0 \<and> x1 \<le> u1 \<and> v0 \<le> y0 \<and> y1 \<le> v1)"
  by (simp add: box_within_def box_ring_bounds box_ring_nonempty)

lemma box_intersection_ring:
  "x0 \<le> x1 \<Longrightarrow> y0 \<le> y1 \<Longrightarrow> u0 \<le> u1 \<Longrightarrow> v0 \<le> v1 \<Longrightarrow>
   box_intersection (box_ring x0 y0 x1 y1) (box_ring u0 v0 u1 v1) =
     (if min x1 u1 < max x0 u0 \<or> min y1 v1 < max y0 v0 then []
      else box_ring (max x0 u0) (max y0 v0) (min x1 u1) (min y1 v1))"
  by (simp add: box_intersection_def box_ring_bounds box_ring_nonempty Let_def)



lemma sh_box_simps:
  "sh_Polygon box_shapely = close_ring"
  "sh_exterior_coords box_shapely g = g"
  "sh_is_valid box_shapely g = (0 < box_area g)"
  "sh_is_empty box_shapely g = (g = [])"
  "sh_area box_shapely = box_area"
  "sh_type box_shapely g = ''Polygon''"
  "sh_within box_shapely = box_within"
  "sh_intersection box_shapely = box_intersection"
  "sh_intersects box_shapely a b = (box_intersection a b \<noteq> [])"
  "sh_almost_equals box_shapely a b = (a = b)"
  "sh_crosses box_shapely a b = False"
  "sh_overlaps box_shapely a b = (0 < box_area (box_intersection a b) \<and> \<not> box_within a b \<and> \<not> box_within b a)"
  "sh_buffer box_shapely g d = (if g = [] then [] else box_ring (xmin g - d) (ymin g - d) (xmax g + d) (ymax g + d))"
  "sh_union box_shapely = box_hull"
  "sh_minimum_clearance box_shapely g = min (xmax g - xmin g) (ymax g - ymin g)"
  "sh_simplify box_shapely g tolerance = g"
  "sh_convex_hull box_shapely g = g"
  by (simp_all add: box_shapely_def)

lemma plain_utils_simps:
  "coordinates_of_segment plain_utils ps = ps"
  "coordinates_for_segment plain_utils ps = ps"
  "points_from_polygon plain_utils ps = ps"
  by (simp_all add: plain_utils_def)

lemma clip_inside:
  assumes "0 \<le> x0" "x0 < x1" "x1 \<le> of_int w" "0 \<le> y0" "y0 < y1" "y1 \<le> of_int h"
  shows "polygon_for_parent box_shapely plain_utils (square x0 y0 x1 y1) (PageType None w h) =
           Inr (Some (square x0 y0 x1 y1))"
proof -
  have c: "close_ring (square x0 y0 x1 y1) = box_ring x0 y0 x1 y1"
    using assms by (simp add: close_ring_square)
  have p: "close_ring [(0, 0), (0, of_int h), (of_int w, of_int h), (of_int w, 0)] = box_ring 0 0 (of_int w) (of_int h)"
    using close_ring_square[of 0 "of_int w" 0 "of_int h"] assms by (simp add: square_def)
  have v1: "make_valid box_shapely (box_ring x0 y0 x1 y1) = Inr (box_ring x0 y0 x1 y1)"
    using assms by (intro make_valid_idle) (simp add: sh_box_simps box_area_ring)
  have v2: "make_valid box_shapely (box_ring 0 0 (of_int w) (of_int h)) = Inr (box_ring 0 0 (of_int w) (of_int h))"
    using assms by (intro make_valid_idle) (simp add: sh_box_simps box_area_ring)
  have w: "box_within (box_ring x0 y0 x1 y1) (box_ring 0 0 (of_int w) (of_int h))"
    using assms by (simp add: box_within_ring)
  show ?thesis
    by (simp add: polygon_for_parent_def parent_polygon_no_Border Polygon_square
          clip_to_parent_def sh_box_simps c p v1 v2 w butlast_box_ring)
qed

lemma clip_outside:
  assumes "of_int w < x0" "x0 < x1" "0 < w" "y0 < y1" "0 < h"
  shows "polygon_for_parent box_shapely plain_utils (square x0 y0 x1 y1) (PageType None w h) = Inr None"
proof -
  have c: "close_ring (square x0 y0 x1 y1) = box_ring x0 y0 x1 y1"
    using assms by (simp add: close_ring_square)
  have p: "close_ring [(0, 0), (0, of_int h), (of_int w, of_int h), (of_int w, 0)] = box_ring 0 0 (of_int w) (of_int h)"
    using close_ring_square[of 0 "of_int w" 0 "of_int h"] assms by (simp add: square_def)
  have v1: "make_valid box_shapely (box_ring x0 y0 x1 y1) = Inr (box_ring x0 y0 x1 y1)"
    using assms by (intro make_valid_idle) (simp add: sh_box_simps box_area_ring)
  have v2: "make_valid box_shapely (box_ring 0 0 (of_int w) (of_int h)) = Inr (box_ring 0 0 (of_int w) (of_int h))"
    using assms by (intro make_valid_idle) (simp add: sh_box_simps box_area_ring)
  have w: "\<not> box_within (box_ring x0 y0 x1 y1) (box_ring 0 0 (of_int w) (of_int h))"
    using assms by (simp add: box_within_ring)
  have i: "box_intersection (box_ring x0 y0 x1 y1) (box_ring 0 0 (of_int w) (of_int h)) = []"
    using assms by (simp add: box_intersection_ring)
  show ?thesis
    by (simp add: polygon_for_parent_def parent_polygon_no_Border Polygon_square
          clip_to_parent_def sh_box_simps c p v1 v2 w i)
qed

lemma fmt_02d_small: "fmt_02d 0 = ''00''" "fmt_02d 1 = ''01''" "fmt_02d (Suc 0) = ''01''"
  "fmt_02d 2 = ''02''"
  by code_simp+

lemma new_region_id_small:
  "new_region_id 0 = ''addressregion01''" "new_region_id 1 = ''addressregion02''"
  "new_region_id (Suc 0) = ''addressregion02''" "new_region_id 2 = ''addressregion03''"
  by code_simp+

lemmas box_eval = sh_box_simps plain_utils_simps Polygon_square close_ring_square box_within_ring
  box_intersection_ring box_area_ring box_area_empty box_ring_bounds box_ring_nonempty butlast_box_ring

lemmas run_defs = process_def suppression_def overlap_test_def count_nonzero_def mask_mul_def
  mask_add_def loser_def upt_rec process_instance_def best_scores_def n_instances_def relabel_def
  py_index_def categories_def annotate_def init_state_def plain_region_def plain_line_def
  page_get_reading_order_def subsumes_def remove_neighbour_def retarget_def
  is_address_line_def startswith_def region_text_def AList.delete_eq Let_def

section \<open>Runs of the examples\<close>

lemma ghost_run:
  "map_sum id (\<lambda>st. (attached st, added st, ro_elems st, reading_order st,
                       map (\<lambda>r. map line_id (region_TextLine r)) (allregions st)))
     (process box_shapely plain_utils (PageType None 100 100) plain_page [''r1''] ghost) =
   Inr ([False], [], [''addressregion01''], [(''addressregion01'', 0)],
        [[''addressregion01_line00'']])"
  by (simp add: run_defs clip_inside new_region_id_small fmt_02d_small
        plain_page_def ghost_def box_eval)

lemma outside_run:
  "process box_shapely plain_utils (PageType None 100 100) plain_page [''r1''] outside =
     Inl (NameError ''category'')"
  by (simp add: run_defs clip_outside load_global_category
        plain_page_def outside_def plain_utils_simps Polygon_square)

lemma siblings_run:
  "map_sum id (\<lambda>st. (attached st, map region_id (added st), ro_elems st, reading_order st))
     (process box_shapely plain_utils (PageType None 100 100) address_page [''r1'', ''r2'']
        ghost) =
   Inr ([False, False], [''addressregion01''], [''addressregion01'', ''addressregion01''],
        [(''addressregion01'', 1)])"
  by (simp add: run_defs clip_inside new_region_id_small fmt_02d_small
        address_page_def ghost_def box_eval)

text \<open>The run on \<open>triple\<close>, one instance at a time.\<close>

lemma triple_suppression: "suppression triple = Inr [1]"
  by (simp add: suppression_def n_instances_def triple_def upt_rec overlap_test_def
        count_nonzero_def mask_mul_def mask_add_def loser_def)

lemma triple_best: "best_scores triple [1] = [0, 0.9, 0.8, 0]"
  by (simp add: best_scores_def triple_def n_instances_def upt_rec)

lemma address_page_polys:
  "allpolys_of box_shapely plain_utils address_page =
     Inr [box_ring 10 10 50 30, box_ring 10 32 50 38]"
  by (simp add: address_page_def plain_region_def box_eval)

lemmas step_defs = process_instance_def relabel_def py_index_def categories_def annotate_def
  plain_region_def plain_line_def subsumes_def remove_neighbour_def retarget_def
  is_address_line_def startswith_def region_text_def AList.delete_eq upt_rec Let_def

lemma triple_step0:
  "process_instance box_shapely plain_utils (PageType None 100 100)
     [box_ring 10 10 50 30, box_ring 10 32 50 38] triple [1] [0, 0.9, 0.8, 0] 0
     (init_state address_page [''r1'', ''r2'']) = Inr triple_state0"
  by (simp add: step_defs init_state_def page_get_reading_order_def clip_inside
        new_region_id_small fmt_02d_small address_page_def triple_def triple_state0_def box_eval)

lemma triple_step1:
  "process_instance box_shapely plain_utils (PageType None 100 100)
     [box_ring 10 10 50 30, box_ring 10 32 50 38] triple [1] [0, 0.9, 0.8, 0] 1
     triple_state0 = Inr triple_state1"
  by (simp add: process_instance_def triple_state1_def triple_def)

lemma triple_step2:
  "map_sum id (\<lambda>st. (attached st, map region_id (added st)))
     (process_instance box_shapely plain_utils (PageType None 100 100)
        [box_ring 10 10 50 30, box_ring 10 32 50 38] triple [1] [0, 0.9, 0.8, 0] 2
        triple_state1) =
   Inr ([False, False], [''addressregion01'', ''addressregion03''])"
  by (simp add: step_defs clip_inside new_region_id_small fmt_02d_small triple_def
        triple_state0_def triple_state1_def box_eval)

lemma triple_instances: "[0 ..< n_instances triple] = [0, 1, 2]"
  by (simp add: n_instances_def triple_def upt_rec)

lemma triple_best_nonzero: "list_ex (\<lambda>b. b \<noteq> 0) [0, 0.9, 0.8, 0 :: real]"
  by simp

lemma triple_run:
  "map_sum id (\<lambda>st. (attached st, map region_id (added st)))
     (process box_shapely plain_utils (PageType None 100 100) address_page [''r1'', ''r2'']
        triple) =
   Inr ([False, False], [''addressregion01'', ''addressregion03''])"
proof -
  have "process box_shapely plain_utils (PageType None 100 100) address_page [''r1'', ''r2'']
          triple =
        process_instances box_shapely plain_utils (PageType None 100 100)
          [box_ring 10 10 50 30, box_ring 10 32 50 38] triple [1] [0, 0.9, 0.8, 0] [0, 1, 2]
          (init_state address_page [''r1'', ''r2''])"
    by (simp only: process_def Let_def triple_suppression sum.case triple_best
          triple_best_nonzero address_page_polys triple_instances not_True_eq_False if_False)
  also have "\<dots> =
        process_instance box_shapely plain_utils (PageType None 100 100)
          [box_ring 10 10 50 30, box_ring 10 32 50 38] triple [1] [0, 0.9, 0.8, 0] 2
          triple_state1"
    by (simp only: process_instances.simps(2) triple_step0 triple_step1 sum.case)
      (simp split: sum.split)
  finally show ?thesis by (simp only: triple_step2)
qed

lemma map_sum_InrD: "map_sum id f x = Inr v \<Longrightarrow> \<exists>st. x = Inr st \<and> f st = v"
  by (cases x) auto

section \<open>A candidate whose clipped polygon is empty\<close>

lemma process_instance_None_raises:
  assumes "i \<notin> set worse" and "relabel D best i = Inr (d, cat)"
    and "py_index categories cat = Inr name"
    and "polygon_for_parent G U (coordinates_for_segment U (contours D ! i)) page = Inr None"
  shows "process_instance G U page allpolys D worse best i st = Inl (NameError ''category'')"
  using assms by (simp add: process_instance_def Let_def load_global_category)

lemma process_instances_raises:
  assumes "process_instance G U page allpolys D worse best i st = Inl e"
  shows "process_instances G U page allpolys D worse best (i # is) st = Inl e"
  using assms by simp

text \<open>
  Claim C2 fails on the code. On a page of 100 by 100 pixels without Border, a detection
  whose polygon lies outside the page is clipped to \<^verbatim>\<open>None\<close>; line 295 then reads
  the undefined name \<^verbatim>\<open>category\<close>, and the page ends with \<^verbatim>\<open>NameError\<close> in place
  of a warning and the next candidate.
\<close>

theorem empty_clip_raises_NameError:
  "polygon_for_parent box_shapely plain_utils (square 200 200 300 300)
     (PageType None 100 100) = Inr None \<and>
   process box_shapely plain_utils (PageType None 100 100) plain_page [''r1''] outside =
     Inl (NameError ''category'')"
  using clip_outside[of 100 200 300 200 300 100] outside_run by simp

section \<open>A candidate without address lines\<close>

text \<open>
  Claim C6 fails on the code. The candidate of \<open>ghost\<close> contains the paragraph \<open>r1\<close>, whose
  only line has no address annotation. The candidate is not added to the page, but \<open>r1\<close>
  is no longer attached to it either, its line now carries an id of the discarded region,
  and the reading order refers to the discarded region.
\<close>

theorem discarded_candidate_removes_sibling:
  "\<exists>st. process box_shapely plain_utils (PageType None 100 100) plain_page [''r1''] ghost =
          Inr st \<and>
        added st = [] \<and> attached st = [False] \<and>
        map (\<lambda>r. map line_id (region_TextLine r)) (allregions st) =
          [[''addressregion01_line00'']] \<and>
        ro_elems st = [''addressregion01'']"
  using map_sum_InrD[OF ghost_run] by auto

section \<open>What the loop over the neighbours leaves unchanged\<close>

text \<open>
  The loop over the lines changes the lines and the coordinates of the new region, not
  its id, its type, its confidence or its \<^verbatim>\<open>custom\<close> attribute.
\<close>

lemma steal_lines_region:
  "steal_lines G U ls n (cand, stolen, lg) = Inr (c, s, l) \<Longrightarrow>
     region_id (region c) = region_id (region cand) \<and>
     region_custom (region c) = region_custom (region cand) \<and>
     region_type (region c) = region_type (region cand) \<and>
     region_conf (region c) = region_conf (region cand)"
proof (induction ls arbitrary: n cand stolen lg)
  case Nil
  then show ?case by simp
next
  case (Cons line ls)
  let ?line1 = "line\<lparr>line_id := region_id (region cand) @ ''_line'' @ fmt_02d n\<rparr>"
  from Cons.prems obtain line_poly where
    p: "Polygon G (coordinates_of_segment U (line_Coords ?line1)) = Inr line_poly"
    by (cases "Polygon G (coordinates_of_segment U (line_Coords ?line1))")
       (simp_all add: Let_def)
  from Cons.prems p obtain cand1 lg1 where
    r: "steal_lines G U ls (n + 1) (cand1, stolen @ [?line1], lg1) = Inr (c, s, l)"
    and f: "region_id (region cand1) = region_id (region cand)"
      "region_custom (region cand1) = region_custom (region cand)"
      "region_type (region cand1) = region_type (region cand)"
      "region_conf (region cand1) = region_conf (region cand)"
    by (cases "sh_within G line_poly (region_poly cand)") (simp_all add: Let_def)
  from Cons.IH[OF r] f show ?case by simp
qed

lemma retarget_others:
  "added (retarget st a b) = added st"
  "logged (retarget st a b) = logged st"
  "allregions (retarget st a b) = allregions st"
  "attached (retarget st a b) = attached st"
  "oldregions (retarget st a b) = oldregions st"
  "length (ro_elems (retarget st a b)) = length (ro_elems st)"
  by (simp_all add: retarget_def split: option.splits)

text \<open>
  \<^verbatim>\<open>retarget\<close> reads and writes the reading order only, so the other updates of
  lines 341-343 commute with it.
\<close>

lemma retarget_reading_order_only:
  assumes "ro_elems st1 = ro_elems st" and "reading_order st1 = reading_order st"
  shows "ro_elems (retarget st1 a b) = ro_elems (retarget st a b) \<and>
         reading_order (retarget st1 a b) = reading_order (retarget st a b)"
  using assms by (simp add: retarget_def split: option.splits)

lemma remove_neighbour_props:
  assumes "remove_neighbour G U k (st, cand) = Inr (st', cand')"
  shows "added st' = added st"
    and "region_id (region cand') = region_id (region cand)"
    and "region_custom (region cand') = region_custom (region cand)"
    and "region_type (region cand') = region_type (region cand)"
    and "region_conf (region cand') = region_conf (region cand)"
    and "\<exists>l. logged st' = logged st @ l"
    and "ro_elems st' = ro_elems (retarget st (region_id (allregions st ! k))
                                    (region_id (region cand)))"
    and "reading_order st' = reading_order (retarget st (region_id (allregions st ! k))
                                              (region_id (region cand)))"
    and "attached st' = (attached st)[k := False]"
    and "oldregions st' = oldregions st @ [k]"
proof -
  let ?neighbour = "allregions st ! k"
  from assms obtain c s l where
    e: "steal_lines G U (region_TextLine ?neighbour) (length (region_TextLine (region cand)))
          (cand, [], [Debug_removing (region_id ?neighbour) (region_id (region cand))]) =
        Inr (c, s, l)"
    by (cases "steal_lines G U (region_TextLine ?neighbour)
                 (length (region_TextLine (region cand)))
                 (cand, [], [Debug_removing (region_id ?neighbour) (region_id (region cand))])")
       (auto simp: remove_neighbour_def Let_def)
  note f = steal_lines_region[OF e]
  let ?region2 = "(region c)\<lparr>region_TextEquiv := [region_text (region_TextLine (region c))]\<rparr>"
  let ?st1 = "st\<lparr> allregions := (allregions st)[k := ?neighbour\<lparr>region_TextLine := s\<rparr>],
                  attached := (attached st)[k := False],
                  oldregions := oldregions st @ [k],
                  logged := logged st @ l \<rparr>"
  from assms e have st': "st' = retarget ?st1 (region_id ?neighbour) (region_id ?region2)"
    and cand': "cand' = c\<lparr>region := ?region2\<rparr>"
    by (simp_all add: remove_neighbour_def Let_def)
  show "added st' = added st" by (simp add: st' retarget_others)
  show "region_id (region cand') = region_id (region cand)" by (simp add: cand' f)
  show "region_custom (region cand') = region_custom (region cand)" by (simp add: cand' f)
  show "region_type (region cand') = region_type (region cand)" by (simp add: cand' f)
  show "region_conf (region cand') = region_conf (region cand)" by (simp add: cand' f)
  show "\<exists>l. logged st' = logged st @ l" by (simp add: st' retarget_others)
  have i: "region_id ?region2 = region_id (region cand)" by (simp add: f)
  have "ro_elems ?st1 = ro_elems st" "reading_order ?st1 = reading_order st" by simp_all
  from retarget_reading_order_only[OF this]
  show "ro_elems st' = ro_elems (retarget st (region_id ?neighbour) (region_id (region cand)))"
    and "reading_order st' =
           reading_order (retarget st (region_id ?neighbour) (region_id (region cand)))"
    unfolding st' i by blast+
  show "attached st' = (attached st)[k := False]" by (simp add: st' retarget_others)
  show "oldregions st' = oldregions st @ [k]" by (simp add: st' retarget_others)
qed

lemma reconcile_props:
  "reconcile G U allpolys scale ks (st, cand) = Inr (st', cand') \<Longrightarrow>
     added st' = added st \<and>
     region_id (region cand') = region_id (region cand) \<and>
     region_custom (region cand') = region_custom (region cand) \<and>
     region_type (region cand') = region_type (region cand) \<and>
     region_conf (region cand') = region_conf (region cand) \<and>
     (\<exists>l. logged st' = logged st @ l)"
proof (induction ks arbitrary: st cand)
  case Nil
  then show ?case by simp
next
  case (Cons k ks)
  let ?next = "\<lambda>sc. reconcile G U allpolys scale ks sc = Inr (st', cand')"
  from Cons.prems consider
      (same) "?next (st, cand)"
    | (removed) st1 cand1 where "remove_neighbour G U k (st, cand) = Inr (st1, cand1)"
        "?next (st1, cand1)"
    | (logged) ev where "?next (st\<lparr>logged := logged st @ [ev]\<rparr>, cand)"
    by (cases "remove_neighbour G U k (st, cand)")
       (auto simp: Let_def split: if_splits)
  then show ?case
  proof cases
    case same
    from Cons.IH[OF this] show ?thesis .
  next
    case removed
    from Cons.IH[OF removed(2)] remove_neighbour_props[OF removed(1)] show ?thesis
      by auto
  next
    case logged
    from Cons.IH[OF this] show ?thesis by auto
  qed
qed

text \<open>
  Lines 297-360 leave the page with the regions it had or with one more, the new region
  of instance \<open>i\<close>: its id has the number \<open>i + 1\<close>, its \<^verbatim>\<open>custom\<close> attribute names the
  category it was processed under. The log says for which category the region was made.
\<close>

lemma annotate_props:
  assumes "annotate G U allpolys D i name rp st = Inr st'"
  shows "added st' = added st \<or>
         (\<exists>r. added st' = added st @ [r] \<and> region_id r = new_region_id i \<and>
              region_custom r = Some (''subtype:'' @ name) \<and> region_type r = ''other'' \<and>
              region_conf r = Some (scores D ! i))"
    and "\<exists>l. logged st' = logged st @ Info_detected name (new_region_id i) # l"
proof -
  let ?st1 = "st\<lparr>logged := logged st @ [Info_detected name (new_region_id i)]\<rparr>"
  let ?new = "\<lparr> region_id = new_region_id i,
                  region_Coords = points_from_polygon U rp,
                  region_conf = Some (scores D ! i),
                  region_type = ''other'',
                  region_custom = Some (''subtype:'' @ name),
                  region_TextLine = [],
                  region_TextEquiv = [] \<rparr>"
  from assms obtain poly where
    p: "Polygon G (coordinates_of_segment U (region_Coords ?new)) = Inr poly"
    by (cases "Polygon G (coordinates_of_segment U (region_Coords ?new))")
       (simp_all add: annotate_def Let_def)
  let ?cand = "\<lparr> region = ?new, region_poly = poly, has_address = False \<rparr>"
  from assms p obtain st2 cand2 where
    r: "reconcile G U allpolys (scales D ! i) [0 ..< length (allregions ?st1)] (?st1, ?cand) =
          Inr (st2, cand2)"
    by (cases "reconcile G U allpolys (scales D ! i) [0 ..< length (allregions ?st1)]
                 (?st1, ?cand)")
       (auto simp: annotate_def Let_def)
  from assms p r have st':
    "st' = (if has_address cand2 then st2\<lparr>added := added st2 @ [region cand2]\<rparr>
            else st2\<lparr>logged := logged st2 @
                        [Info_ignoring_without_address name (new_region_id i)]\<rparr>)"
    by (simp add: annotate_def Let_def)
  from reconcile_props[OF r] obtain l where
    f: "added st2 = added st" "region_id (region cand2) = new_region_id i"
       "region_custom (region cand2) = Some (''subtype:'' @ name)"
       "region_type (region cand2) = ''other''"
       "region_conf (region cand2) = Some (scores D ! i)"
    and l: "logged st2 = logged st @ Info_detected name (new_region_id i) # l"
    by auto
  from st' f show "added st' = added st \<or>
         (\<exists>r. added st' = added st @ [r] \<and> region_id r = new_region_id i \<and>
              region_custom r = Some (''subtype:'' @ name) \<and> region_type r = ''other'' \<and>
              region_conf r = Some (scores D ! i))"
    by auto
  from st' l show "\<exists>l. logged st' = logged st @ Info_detected name (new_region_id i) # l"
    by auto
qed

lemma process_instance_annotates:
  assumes "process_instance G U page allpolys D worse best i st = Inr st'" and "i \<notin> set worse"
  shows "\<exists>name rp st1. annotate G U allpolys D i name rp st1 = Inr st' \<and>
           added st1 = added st \<and> ro_consistent st1 = ro_consistent st"
proof -
  from assms obtain d cat where r: "relabel D best i = Inr (d, cat)"
    by (cases "relabel D best i") (auto simp: process_instance_def)
  from assms r obtain name where n: "py_index categories cat = Inr name"
    by (cases "py_index categories cat") (auto simp: process_instance_def Let_def)
  let ?st1 = "if d then st\<lparr>logged := logged st @ [Debug_degrading (class_ids D ! i)]\<rparr> else st"
  from assms r n obtain rp where
    "polygon_for_parent G U (coordinates_for_segment U (contours D ! i)) page = Inr (Some rp)"
    by (cases "polygon_for_parent G U (coordinates_for_segment U (contours D ! i)) page")
       (auto simp: process_instance_def Let_def load_global_category split: option.splits)
  with assms r n have "annotate G U allpolys D i name rp ?st1 = Inr st'"
    by (simp add: process_instance_def Let_def)
  moreover have "added ?st1 = added st" by simp
  moreover have "ro_consistent ?st1 = ro_consistent st" by (simp add: ro_consistent_def)
  ultimately show ?thesis by blast
qed


section \<open>Reading-order references\<close>

lemma ro_consistent_iff:
  "ro_consistent st =
     (distinct (map fst (reading_order st)) \<and>
      (\<forall>rid e. map_of (reading_order st) rid = Some e \<longrightarrow>
         e < length (ro_elems st) \<and> ro_elems st ! e = rid))"
  by (auto simp: ro_consistent_def list_all_iff map_of_eq_Some_iff)

lemma page_get_reading_order_prefix:
  "m \<le> length elems \<Longrightarrow>
     distinct (map fst (fold (\<lambda>e ro. AList.update (elems ! e) e ro) [0 ..< m] [])) \<and>
     (\<forall>rid e. map_of (fold (\<lambda>e ro. AList.update (elems ! e) e ro) [0 ..< m] []) rid = Some e \<longrightarrow>
        e < m \<and> elems ! e = rid)"
proof (induction m)
  case 0
  then show ?case by simp
next
  case (Suc m)
  let ?ro = "fold (\<lambda>e ro. AList.update (elems ! e) e ro) [0 ..< m] []"
  from Suc.prems have "m \<le> length elems" by simp
  note IH = Suc.IH[OF this]
  from IH have d: "distinct (map fst ?ro)" by (rule conjunct1)
  from IH have ih: "map_of ?ro rid = Some e \<Longrightarrow> e < m \<and> elems ! e = rid" for rid e
    by blast
  have step: "fold (\<lambda>e ro. AList.update (elems ! e) e ro) [0 ..< Suc m] [] =
                AList.update (elems ! m) m ?ro"
    by simp
  have main: "e < Suc m \<and> elems ! e = rid"
    if "map_of (AList.update (elems ! m) m ?ro) rid = Some e" for rid e
  proof (cases "rid = elems ! m")
    case True
    with that show ?thesis by (simp add: AList.update_conv')
  next
    case False
    with that have "map_of ?ro rid = Some e" by (simp add: AList.update_conv')
    from ih[OF this] show ?thesis by simp
  qed
  show ?case unfolding step
  proof (intro conjI allI impI)
    show "distinct (map fst (AList.update (elems ! m) m ?ro))"
      using d by (rule AList.distinct_update)
  next
    fix rid e
    assume "map_of (AList.update (elems ! m) m ?ro) rid = Some e"
    then show "e < Suc m" "elems ! e = rid" using main by blast+
  qed
qed

lemma init_state_consistent: "ro_consistent (init_state regions elems)"
proof -
  have r: "reading_order (init_state regions elems) =
             fold (\<lambda>e ro. AList.update (elems ! e) e ro) [0 ..< length elems] []"
    and e: "ro_elems (init_state regions elems) = elems"
    by (simp_all add: init_state_def page_get_reading_order_def)
  from page_get_reading_order_prefix[of "length elems" elems]
  show ?thesis unfolding ro_consistent_iff r e by blast
qed

lemma retarget_hit:
  assumes "map_of (reading_order st) a = Some e"
  shows "ro_elems (retarget st a b) = (ro_elems st)[e := b]"
    and "map_of (reading_order (retarget st a b)) =
           ((map_of (reading_order st))(b \<mapsto> e))(a := None)"
    and "distinct (map fst (reading_order st)) \<Longrightarrow>
           distinct (map fst (reading_order (retarget st a b)))"
  using assms
  by (simp_all add: retarget_def AList.update_conv' AList.delete_conv' AList.distinct_update
        AList.distinct_delete)

lemma retarget_miss:
  "map_of (reading_order st) a = None \<Longrightarrow> retarget st a b = st"
  by (simp add: retarget_def)

lemma retarget_consistent:
  assumes "ro_consistent st"
  shows "ro_consistent (retarget st a b)"
proof (cases "map_of (reading_order st) a")
  case None
  with assms show ?thesis by (simp add: retarget_miss)
next
  case (Some e)
  from assms Some have e: "e < length (ro_elems st)" "ro_elems st ! e = a"
    by (auto simp: ro_consistent_iff)
  show ?thesis
    unfolding ro_consistent_iff
  proof (intro conjI allI impI)
    show "distinct (map fst (reading_order (retarget st a b)))"
      using assms retarget_hit(3)[OF Some] by (simp add: ro_consistent_iff)
  next
    fix rid v
    assume "map_of (reading_order (retarget st a b)) rid = Some v"
    then have m: "rid \<noteq> a" "(rid = b \<and> v = e) \<or> (rid \<noteq> b \<and> map_of (reading_order st) rid = Some v)"
      by (auto simp: retarget_hit(2)[OF Some] split: if_splits)
    from m(2) show "v < length (ro_elems (retarget st a b))"
      using assms e by (auto simp: retarget_others ro_consistent_iff)
    from m(2) show "ro_elems (retarget st a b) ! v = rid"
    proof
      assume "rid = b \<and> v = e"
      with e show ?thesis by (simp add: retarget_hit(1)[OF Some])
    next
      assume o: "rid \<noteq> b \<and> map_of (reading_order st) rid = Some v"
      with assms have v: "v < length (ro_elems st)" "ro_elems st ! v = rid"
        by (auto simp: ro_consistent_iff)
      with e m(1) have "v \<noteq> e" by auto
      with v show ?thesis by (simp add: retarget_hit(1)[OF Some])
    qed
  qed
qed

lemma count_list_update:
  "e < length xs \<Longrightarrow>
     length (filter (\<lambda>r. r = x) (xs[e := x])) =
       length (filter (\<lambda>r. r = x) xs) + (if xs ! e = x then 0 else 1)"
proof (induction xs arbitrary: e)
  case Nil
  then show ?case by simp
next
  case (Cons a xs)
  then show ?case by (cases e) auto
qed

text \<open>
  Dictionary and elements agree in every state of a run: they do when the page is read,
  and each pass of the loops keeps it so.
\<close>

lemma ro_consistent_logged [simp]:
  "ro_consistent (st\<lparr>logged := l\<rparr>) = ro_consistent st"
  by (simp add: ro_consistent_def)

lemma ro_consistent_added [simp]:
  "ro_consistent (st\<lparr>added := a\<rparr>) = ro_consistent st"
  by (simp add: ro_consistent_def)

lemma remove_neighbour_consistent:
  assumes "remove_neighbour G U k (st, cand) = Inr (st', cand')" and "ro_consistent st"
  shows "ro_consistent st'"
  using retarget_consistent[OF assms(2)] remove_neighbour_props(7,8)[OF assms(1)]
  by (simp add: ro_consistent_def)

lemma reconcile_consistent:
  "reconcile G U allpolys scale ks (st, cand) = Inr (st', cand') \<Longrightarrow> ro_consistent st \<Longrightarrow>
     ro_consistent st'"
proof (induction ks arbitrary: st cand)
  case Nil
  then show ?case by simp
next
  case (Cons k ks)
  let ?next = "\<lambda>sc. reconcile G U allpolys scale ks sc = Inr (st', cand')"
  from Cons.prems(1) consider
      (same) "?next (st, cand)"
    | (removed) st1 cand1 where "remove_neighbour G U k (st, cand) = Inr (st1, cand1)"
        "?next (st1, cand1)"
    | (logged) ev where "?next (st\<lparr>logged := logged st @ [ev]\<rparr>, cand)"
    by (cases "remove_neighbour G U k (st, cand)")
       (auto simp: Let_def split: if_splits)
  then show ?case
  proof cases
    case same
    from Cons.IH[OF this Cons.prems(2)] show ?thesis .
  next
    case removed
    from Cons.IH[OF removed(2) remove_neighbour_consistent[OF removed(1) Cons.prems(2)]]
    show ?thesis .
  next
    case logged
    from Cons.IH[OF this] Cons.prems(2) show ?thesis by simp
  qed
qed

lemma annotate_consistent:
  assumes "annotate G U allpolys D i name rp st = Inr st'" and "ro_consistent st"
  shows "ro_consistent st'"
proof -
  let ?st1 = "st\<lparr>logged := logged st @ [Info_detected name (new_region_id i)]\<rparr>"
  from assms(1) obtain cand st2 cand2 where
    r: "reconcile G U allpolys (scales D ! i) [0 ..< length (allregions ?st1)] (?st1, cand) =
          Inr (st2, cand2)"
    and st': "st' = (if has_address cand2 then st2\<lparr>added := added st2 @ [region cand2]\<rparr>
               else st2\<lparr>logged := logged st2 @
                           [Info_ignoring_without_address name (new_region_id i)]\<rparr>)"
    by (auto simp: annotate_def Let_def split: sum.splits)
  from reconcile_consistent[OF r] assms(2) have "ro_consistent st2" by simp
  with st' show ?thesis by simp
qed

lemma process_instance_consistent:
  assumes "process_instance G U page allpolys D worse best i st = Inr st'"
    and "ro_consistent st"
  shows "ro_consistent st'"
proof (cases "i \<in> set worse")
  case True
  with assms show ?thesis by (auto simp: process_instance_def)
next
  case False
  from process_instance_annotates[OF assms(1) False] obtain name rp st1 where
    a: "annotate G U allpolys D i name rp st1 = Inr st'" and "ro_consistent st1 = ro_consistent st"
    by blast
  with annotate_consistent[OF a] assms(2) show ?thesis by simp
qed

lemma process_instances_consistent:
  "process_instances G U page allpolys D worse best is st = Inr st' \<Longrightarrow> ro_consistent st \<Longrightarrow>
     ro_consistent st'"
proof (induction "is" arbitrary: st)
  case Nil
  then show ?case by simp
next
  case (Cons i "is")
  from Cons.prems(1) obtain st1 where
    s1: "process_instance G U page allpolys D worse best i st = Inr st1"
    and rest: "process_instances G U page allpolys D worse best is st1 = Inr st'"
    by (auto split: sum.splits)
  from Cons.IH[OF rest process_instance_consistent[OF s1 Cons.prems(2)]] show ?case .
qed

lemma process_consistent:
  assumes "process G U page regions elems D = Inr st'"
  shows "ro_consistent st'"
proof -
  from assms obtain allpolys worse st1 where
    "process_instances G U page allpolys D worse (best_scores D worse)
       [0 ..< n_instances D] st1 = Inr st'"
    and "ro_consistent st1 = ro_consistent (init_state regions elems)"
    by (auto simp: process_def Let_def split: sum.splits if_splits)
  with process_instances_consistent init_state_consistent show ?thesis by blast
qed

text \<open>
  Claim C7, as amended. Take a page whose reading-order dictionary and element objects
  agree, a neighbour \<open>k\<close> that is not yet removed, that the new region subsumes and whose
  id has the entry \<open>e\<close> in the dictionary, and let the loop body of lines 317-348 remove it.
  The loop goes on with the page so changed, on which the neighbour is detached from its
  parent and marked as removed. Element \<open>e\<close>, which referred to the
  neighbour, now refers to the new region; it stays where it is, no element is dropped and
  no other element changes. In the dictionary the element is filed under the new id in
  place of any element filed there before, and the neighbour's id is deleted. Elements
  are not merged: unless the neighbour had the id of the new region, one more element
  than before refers to the new region. Dictionary and elements agree again, so the same
  holds for the next neighbour that is removed.
\<close>

theorem removed_sibling_retargets_reference:
  assumes "ro_consistent st"
    and "k \<notin> set (oldregions st)"
    and "subsumes G (allpolys ! k) (region_poly cand) scale"
    and "map_of (reading_order st) (region_id (allregions st ! k)) = Some e"
    and "remove_neighbour G U k (st, cand) = Inr (st', cand')"
  shows "reconcile G U allpolys scale (k # ks) (st, cand) =
           reconcile G U allpolys scale ks (st', cand') \<and>
         attached st' = (attached st)[k := False] \<and>
         oldregions st' = oldregions st @ [k] \<and>
         region_id (region cand') = region_id (region cand) \<and>
         e < length (ro_elems st) \<and>
         ro_elems st ! e = region_id (allregions st ! k) \<and>
         ro_elems st' = (ro_elems st)[e := region_id (region cand)] \<and>
         map_of (reading_order st') =
           ((map_of (reading_order st))(region_id (region cand) \<mapsto> e))
             (region_id (allregions st ! k) := None) \<and>
         length (filter (\<lambda>ref. ref = region_id (region cand)) (ro_elems st')) =
           length (filter (\<lambda>ref. ref = region_id (region cand)) (ro_elems st)) +
           (if region_id (allregions st ! k) = region_id (region cand) then 0 else 1) \<and>
         ro_consistent st'"
proof -
  let ?a = "region_id (allregions st ! k)" and ?b = "region_id (region cand)"
  note p = remove_neighbour_props[OF assms(5)]
  from assms(1,4) have e: "e < length (ro_elems st)" "ro_elems st ! e = ?a"
    by (auto simp: ro_consistent_iff)
  have elems: "ro_elems st' = (ro_elems st)[e := ?b]"
    by (simp add: p(7) retarget_hit(1)[OF assms(4)])
  have dict: "map_of (reading_order st') = ((map_of (reading_order st))(?b \<mapsto> e))(?a := None)"
    by (simp add: p(8) retarget_hit(2)[OF assms(4)])
  have "ro_consistent (retarget st ?a ?b)" by (rule retarget_consistent[OF assms(1)])
  then have cons: "ro_consistent st'" by (simp add: ro_consistent_def p(7,8))
  have count: "length (filter (\<lambda>ref. ref = ?b) (ro_elems st')) =
                 length (filter (\<lambda>ref. ref = ?b) (ro_elems st)) + (if ?a = ?b then 0 else 1)"
    unfolding elems using count_list_update[OF e(1), of ?b] e(2) by simp
  have step: "reconcile G U allpolys scale (k # ks) (st, cand) =
                reconcile G U allpolys scale ks (st', cand')"
    using assms(2,3,5) by (simp add: Let_def)
  from step p(9) p(10) p(2) e elems dict count cons show ?thesis by blast
qed

lemma ghost_candidate_removes_r1:
  "map_sum id (\<lambda>(st, cand). (ro_elems st, reading_order st, region_id (region cand)))
     (remove_neighbour box_shapely plain_utils 0
        (init_state address_page [''r1'', ''r2''], ghost_candidate)) =
   Inr ([''addressregion01'', ''r2''], [(''r2'', 1), (''addressregion01'', 0)],
        ''addressregion01'')"
  by (simp add: remove_neighbour_def retarget_def init_state_def page_get_reading_order_def
        upt_rec address_page_def plain_region_def plain_line_def ghost_candidate_def
        is_address_line_def startswith_def region_text_def AList.delete_eq Let_def
        fmt_02d_small box_eval)

theorem removed_sibling_retargets_reference_witness:
  "ro_consistent (init_state address_page [''r1'', ''r2'']) \<and>
   0 \<notin> set (oldregions (init_state address_page [''r1'', ''r2''])) \<and>
   subsumes box_shapely (box_ring 10 10 50 30) (region_poly ghost_candidate) 1 \<and>
   map_of (reading_order (init_state address_page [''r1'', ''r2'']))
     (region_id (allregions (init_state address_page [''r1'', ''r2'']) ! 0)) = Some 0 \<and>
   (\<exists>st' cand'.
      remove_neighbour box_shapely plain_utils 0
        (init_state address_page [''r1'', ''r2''], ghost_candidate) = Inr (st', cand') \<and>
      ro_elems st' = [''addressregion01'', ''r2''] \<and>
      map_of (reading_order st') ''addressregion01'' = Some 0 \<and>
      map_of (reading_order st') ''r1'' = None \<and>
      length (filter (\<lambda>ref. ref = ''addressregion01'') (ro_elems st')) = 1 \<and>
      ro_consistent st')"
proof -
  let ?st = "init_state address_page [''r1'', ''r2'']"
  have r: "reading_order ?st = [(''r1'', 0), (''r2'', 1)]" "ro_elems ?st = [''r1'', ''r2'']"
    "oldregions ?st = []" "region_id (allregions ?st ! 0) = ''r1''"
    by (simp_all add: init_state_def page_get_reading_order_def upt_rec address_page_def
          plain_region_def)
  have c: "ro_consistent ?st" by (rule init_state_consistent)
  have o: "0 \<notin> set (oldregions ?st)" by (simp add: r)
  have s: "subsumes box_shapely (box_ring 10 10 50 30) (region_poly ghost_candidate) 1"
    by (simp add: subsumes_def ghost_candidate_def box_eval)
  have m: "map_of (reading_order ?st) (region_id (allregions ?st ! 0)) = Some 0"
    by (simp add: r)
  from map_sum_InrD[OF ghost_candidate_removes_r1] obtain st' cand' where
    rn: "remove_neighbour box_shapely plain_utils 0 (?st, ghost_candidate) = Inr (st', cand')"
    by auto
  have b: "region_id (region ghost_candidate) = ''addressregion01''"
    by (simp add: ghost_candidate_def)
  from removed_sibling_retargets_reference[OF c o _ m rn,
         of "[box_ring 10 10 50 30, box_ring 10 32 50 38]" 1 "[1]"] s
  have "ro_elems st' = (ro_elems ?st)[0 := ''addressregion01''] \<and>
        map_of (reading_order st') =
          ((map_of (reading_order ?st))(''addressregion01'' \<mapsto> 0))(''r1'' := None) \<and>
        length (filter (\<lambda>ref. ref = ''addressregion01'') (ro_elems st')) =
          length (filter (\<lambda>ref. ref = ''addressregion01'') (ro_elems ?st)) + 1 \<and>
        ro_consistent st'"
    by (simp add: b r)
  then have "ro_elems st' = [''addressregion01'', ''r2''] \<and>
      map_of (reading_order st') ''addressregion01'' = Some 0 \<and>
      map_of (reading_order st') ''r1'' = None \<and>
      length (filter (\<lambda>ref. ref = ''addressregion01'') (ro_elems st')) = 1 \<and>
      ro_consistent st'"
    by (simp add: r)
  with c o s m rn show ?thesis by blast
qed

text \<open>
  The claim as stated fails: the candidate of \<open>ghost\<close> contains both paragraphs of
  \<open>address_page\<close>, and afterwards two elements of the reading order refer to the new
  region, of which the dictionary knows the second.
\<close>

theorem two_references_counterexample:
  "\<exists>st. process box_shapely plain_utils (PageType None 100 100) address_page
          [''r1'', ''r2''] ghost = Inr st \<and>
        map region_id (added st) = [''addressregion01''] \<and>
        ro_elems st = [''addressregion01'', ''addressregion01''] \<and>
        length (filter (\<lambda>ref. ref = ''addressregion01'') (ro_elems st)) = 2 \<and>
        reading_order st = [(''addressregion01'', 1)]"
  using map_sum_InrD[OF siblings_run] by auto

section \<open>Region ids\<close>

lemma digit_value_digit: "d < 10 \<Longrightarrow> digit_value (digit d) = d"
proof -
  assume "d < 10"
  then have "d = 0 \<or> d = 1 \<or> d = 2 \<or> d = 3 \<or> d = 4 \<or> d = 5 \<or> d = 6 \<or> d = 7 \<or>
             d = 8 \<or> d = 9" by arith
  then show ?thesis by (auto simp: digit_value_def digit_def)
qed

lemma decimal_value_append:
  "decimal_value (s @ [c]) = 10 * decimal_value s + digit_value c"
  by (simp add: decimal_value_def)

lemma decimal_value_str_nat: "decimal_value (str_nat n) = n"
proof (induction n rule: str_nat.induct)
  case (1 n)
  show ?case
  proof (cases "n < 10")
    case True
    then show ?thesis
      by (subst str_nat.simps) (simp add: decimal_value_def digit_value_digit)
  next
    case False
    with 1 have "decimal_value (str_nat (n div 10)) = n div 10" by simp
    with False show ?thesis
      by (subst str_nat.simps) (simp add: decimal_value_append digit_value_digit)
  qed
qed

lemma decimal_value_zeros: "decimal_value (replicate k CHR ''0'' @ s) = decimal_value s"
proof -
  have "fold (\<lambda>c n. 10 * n + digit_value c) (replicate k CHR ''0'') 0 = 0"
    by (induction k) (simp_all add: digit_value_def)
  then show ?thesis by (simp add: decimal_value_def)
qed

lemma str_nat_nonempty: "str_nat n \<noteq> []"
  by (subst str_nat.simps) simp

lemma fmt_02d_decimal: "decimal_value (fmt_02d n) = n \<and> 2 \<le> length (fmt_02d n)"
  by (simp add: fmt_02d_def Let_def decimal_value_zeros decimal_value_str_nat)

lemma process_instance_added:
  assumes "process_instance G U page allpolys D worse best i st = Inr st'"
  shows "added st' = added st \<or>
         (i \<notin> set worse \<and> (\<exists>r. added st' = added st @ [r] \<and> region_id r = new_region_id i))"
proof (cases "i \<in> set worse")
  case True
  with assms show ?thesis by (auto simp: process_instance_def)
next
  case False
  from process_instance_annotates[OF assms False] obtain name rp st1 where
    a: "annotate G U allpolys D i name rp st1 = Inr st'" "added st1 = added st" by blast
  from annotate_props(1)[OF a(1)] a(2) False show ?thesis by auto
qed

lemma process_instances_added:
  assumes "process_instances G U page allpolys D worse best is st = Inr st'"
  shows "\<exists>rs js. added st' = added st @ rs \<and> map region_id rs = map new_region_id js \<and>
           subseq js (filter (\<lambda>i. i \<notin> set worse) is)"
  using assms
proof (induction "is" arbitrary: st)
  case Nil
  then show ?case by simp
next
  case (Cons i "is")
  then obtain st1 where s1: "process_instance G U page allpolys D worse best i st = Inr st1"
    and rest: "process_instances G U page allpolys D worse best is st1 = Inr st'"
    by (auto split: sum.splits)
  from Cons.IH[OF rest] obtain rs js where ih: "added st' = added st1 @ rs"
    "map region_id rs = map new_region_id js" "subseq js (filter (\<lambda>i. i \<notin> set worse) is)"
    by blast
  from process_instance_added[OF s1] show ?case
  proof
    assume "added st1 = added st"
    with ih have "added st' = added st @ rs \<and> map region_id rs = map new_region_id js \<and>
           subseq js (filter (\<lambda>i. i \<notin> set worse) (i # is))"
      by (auto intro: subseq_Cons')
    then show ?thesis by blast
  next
    assume "i \<notin> set worse \<and> (\<exists>r. added st1 = added st @ [r] \<and> region_id r = new_region_id i)"
    then obtain r where r: "i \<notin> set worse" "added st1 = added st @ [r]" "region_id r = new_region_id i"
      by blast
    with ih have "added st' = added st @ (r # rs) \<and>
           map region_id (r # rs) = map new_region_id (i # js) \<and>
           subseq (i # js) (filter (\<lambda>i. i \<notin> set worse) (i # is))"
      by simp
    then show ?thesis by blast
  qed
qed

text \<open>
  Claim C9, as amended. When \<^verbatim>\<open>process\<close> returns, the regions it added to the page
  are those of some of the instances that the suppression pass left, in detector order,
  and the region of instance \<open>i\<close> (counted from 0 over the whole detector output) has the
  id \<^verbatim>\<open>addressregion\<close> followed by the decimal digits of \<open>i + 1\<close>, padded with a zero
  to two digits. A suppressed instance uses up its number.
\<close>

theorem region_ids_follow_detector_index:
  assumes "process G U page regions elems D = Inr st'"
  shows "\<exists>worse js. suppression D = Inr worse \<and>
           subseq js (filter (\<lambda>i. i \<notin> set worse) [0 ..< n_instances D]) \<and>
           map region_id (added st') = map (\<lambda>i. ''addressregion'' @ fmt_02d (i + 1)) js \<and>
           list_all (\<lambda>i. decimal_value (fmt_02d (i + 1)) = i + 1 \<and>
                          2 \<le> length (fmt_02d (i + 1))) js"
proof -
  from assms obtain allpolys where ap: "allpolys_of G U regions = Inr allpolys"
    by (cases "allpolys_of G U regions") (auto simp: process_def Let_def)
  with assms obtain worse where w: "suppression D = Inr worse"
    by (cases "suppression D") (auto simp: process_def Let_def)
  with assms ap obtain st1 where
    p: "process_instances G U page allpolys D worse (best_scores D worse)
          [0 ..< n_instances D] st1 = Inr st'"
    and a: "added st1 = []"
    by (auto simp: process_def Let_def init_state_def split: if_splits)
  from process_instances_added[OF p] a obtain js where
    "map region_id (added st') = map new_region_id js"
    "subseq js (filter (\<lambda>i. i \<notin> set worse) [0 ..< n_instances D])" by auto
  with w show ?thesis
    by (auto simp: new_region_id_def list_all_iff fmt_02d_decimal)
qed

theorem region_ids_follow_detector_index_witness:
  "\<exists>st worse js.
     process box_shapely plain_utils (PageType None 100 100) address_page [''r1'', ''r2'']
       triple = Inr st \<and>
     suppression triple = Inr worse \<and>
     subseq js (filter (\<lambda>i. i \<notin> set worse) [0 ..< n_instances triple]) \<and>
     map region_id (added st) = map (\<lambda>i. ''addressregion'' @ fmt_02d (i + 1)) js"
proof -
  from map_sum_InrD[OF triple_run] obtain st where
    st: "process box_shapely plain_utils (PageType None 100 100) address_page [''r1'', ''r2'']
           triple = Inr st" by blast
  from region_ids_follow_detector_index[OF st] st show ?thesis by blast
qed

text \<open>
  The claim as stated fails: of the three instances of \<open>triple\<close> the second is
  suppressed, and the two that are left get the numbers 01 and 03.
\<close>

theorem region_ids_gap_counterexample:
  "suppression triple = Inr [1] \<and>
   (\<exists>st. process box_shapely plain_utils (PageType None 100 100) address_page
           [''r1'', ''r2''] triple = Inr st \<and>
         map region_id (added st) = [''addressregion01'', ''addressregion03''])"
  using map_sum_InrD[OF triple_run] triple_suppression by auto

section \<open>Repair and clipping of a polygon\<close>

text \<open>
  The last sentence of claim C3: \<^verbatim>\<open>make_valid\<close> returns a polygon that is already
  valid as it is, whatever the geometry library computes for the other operations. The
  first loop leaves at its first pass or has no pass, and so does the second.
\<close>

theorem make_valid_returns_valid_unchanged:
  assumes "sh_is_valid G polygon"
  shows "make_valid G polygon = Inr polygon"
  using assms
  by (simp add: make_valid_def make_valid_rotate_valid make_valid_simplify_valid)

theorem make_valid_returns_valid_unchanged_witness:
  "sh_is_valid box_shapely (box_ring 0 0 10 10) \<and>
   make_valid box_shapely (box_ring 0 0 10 10) = Inr (box_ring 0 0 10 10)"
proof -
  have v: "sh_is_valid box_shapely (box_ring 0 0 10 10)"
    by (simp add: sh_box_simps box_area_ring)
  from make_valid_returns_valid_unchanged[OF v] v show ?thesis by simp
qed

text \<open>
  So a child that is valid and lies within the page is returned as its own ring, by the
  fast path of lines 396-397.
\<close>

lemma valid_child_within_returned:
  assumes "3 \<le> length polygon" and "sh_is_valid G (sh_Polygon G polygon)"
    and "make_valid G (sh_Polygon G [(0, 0), (0, of_int h), (of_int w, of_int h),
                                    (of_int w, 0)]) = Inr parentp"
    and "sh_within G (sh_Polygon G polygon) parentp"
  shows "polygon_for_parent G U polygon (PageType None w h) =
           Inr (Some (butlast (sh_exterior_coords G (sh_Polygon G polygon))))"
  using assms
  by (simp add: polygon_for_parent_no_Border clip_to_parent_def make_valid_idle)

subsection \<open>A child polygon without area\<close>

text \<open>
  The child with the points (5,5), (5,40), (5,40) lies on a line. Neither loop of
  \<^verbatim>\<open>make_valid\<close> repairs it: the first rotates the ring twice, the second has no pass
  because the area is 0.
\<close>

lemmas ring_defs = box_area_def xmin_def xmax_def ymin_def ymax_def close_ring_def

lemma page_ring: "close_ring [(0, 0), (0, 100), (100, 100), (100, 0)] = box_ring 0 0 100 100"
  by (simp add: close_ring_def box_ring_def)

lemma page_valid: "make_valid box_shapely (box_ring 0 0 100 100) = Inr (box_ring 0 0 100 100)"
  by (rule make_valid_idle) (simp add: sh_box_simps box_area_ring)

lemma flat_child_make_valid:
  "make_valid box_shapely [(5, 5), (5, 40), (5, 40), (5, 5)] =
     Inr [(5, 40), (5, 5), (5, 5), (5, 5), (5, 40)]"
  by (simp add: make_valid_def sh_box_simps ring_defs upt_rec Polygon_def py_int_def)

lemma flat_result_make_valid:
  "make_valid box_shapely [(5, 40), (5, 5), (5, 5), (5, 5), (5, 40)] =
     Inr [(5, 40), (5, 5), (5, 5), (5, 5), (5, 40), (5, 40)]"
  by (simp add: make_valid_def sh_box_simps ring_defs upt_rec Polygon_def py_int_def)

lemma flat_child_clipped:
  "polygon_for_parent box_shapely plain_utils [(5, 5), (5, 40), (5, 40)]
     (PageType None 100 100) = Inr (Some [(5, 40), (5, 5), (5, 5), (5, 5)])"
proof -
  have c: "close_ring [(5, 5), (5, 40), (5, 40)] = [(5, 5), (5, 40), (5, 40), (5, 5 :: real)]"
    by (simp add: close_ring_def)
  have w: "box_within [(5, 40), (5, 5), (5, 5), (5, 5), (5, 40)] (box_ring 0 0 100 100)"
    by (simp add: box_within_def xmin_def xmax_def ymin_def ymax_def box_ring_def)
  show ?thesis
    by (simp add: polygon_for_parent_no_Border clip_to_parent_def sh_box_simps c page_ring
          page_valid flat_child_make_valid w)
qed

lemma flat_result_clipped:
  "polygon_for_parent box_shapely plain_utils [(5, 40), (5, 5), (5, 5), (5, 5)]
     (PageType None 100 100) = Inr (Some [(5, 40), (5, 5), (5, 5), (5, 5), (5, 40)])"
proof -
  have c: "close_ring [(5, 40), (5, 5), (5, 5), (5, 5)] =
             [(5, 40), (5, 5), (5, 5), (5, 5), (5, 40 :: real)]"
    by (simp add: close_ring_def)
  have w: "box_within [(5, 40), (5, 5), (5, 5), (5, 5), (5, 40), (5, 40)]
             (box_ring 0 0 100 100)"
    by (simp add: box_within_def xmin_def xmax_def ymin_def ymax_def box_ring_def)
  show ?thesis
    by (simp add: polygon_for_parent_no_Border clip_to_parent_def sh_box_simps c page_ring
          page_valid flat_result_make_valid w)
qed

text \<open>
  Claim C1 fails on the code. On a page of 100 by 100 pixels without Border the child
  lies within the page, so line 396 returns the ring that \<^verbatim>\<open>make_valid\<close> left, without
  the test for an empty or zero-area result that line 401 makes on the clipping path. The
  polygon returned is not \<^verbatim>\<open>None\<close>; it has no area and is not valid.
\<close>

theorem flat_child_returned_invalid:
  "polygon_for_parent box_shapely plain_utils [(5, 5), (5, 40), (5, 40)]
     (PageType None 100 100) = Inr (Some [(5, 40), (5, 5), (5, 5), (5, 5)]) \<and>
   Polygon box_shapely [(5, 40), (5, 5), (5, 5), (5, 5)] =
     Inr [(5, 40), (5, 5), (5, 5), (5, 5), (5, 40)] \<and>
   \<not> sh_is_valid box_shapely [(5, 40), (5, 5), (5, 5), (5, 5), (5, 40)] \<and>
   sh_area box_shapely [(5, 40), (5, 5), (5, 5), (5, 5), (5, 40)] = 0"
  using flat_child_clipped by (simp add: Polygon_def sh_box_simps ring_defs)

text \<open>
  Claim C4 fails on the code. Clipping the result of the first call against the same page
  returns another polygon: \<^verbatim>\<open>make_valid\<close> rotates the ring of the unrepaired polygon
  again, and the ring grows by one point.
\<close>

theorem flat_child_clipped_twice_differs:
  "polygon_for_parent box_shapely plain_utils [(5, 5), (5, 40), (5, 40)]
     (PageType None 100 100) = Inr (Some [(5, 40), (5, 5), (5, 5), (5, 5)]) \<and>
   polygon_for_parent box_shapely plain_utils [(5, 40), (5, 5), (5, 5), (5, 5)]
     (PageType None 100 100) = Inr (Some [(5, 40), (5, 5), (5, 5), (5, 5), (5, 40)]) \<and>
   [(5, 40), (5, 5), (5, 5), (5, 5), (5, 40)] \<noteq> [(5, 40), (5, 5), (5, 5), (5, 5 :: real)]"
  using flat_child_clipped flat_result_clipped by simp

section \<open>Best scores and relabelling\<close>

















end
